theory Spec2Isabelle
  imports Complex_Main "HOL-Library.Sublist" "HOL-Library.Multiset" "HOL-Library.AList"
begin

text \<open>
  A shallow embedding of the package analyzer: the severity scorer and the report of
  \<open>security_analyzer.py\<close>, the metadata fetcher of \<open>scraper.py\<close>, the repository
  resolution and the scrapers of \<open>issue_tracker.py\<close>, and the dependency graph of
  \<open>visualizer.py\<close>. The definitions come first, each with the lines of the source it
  embeds; the properties follow in the last section. The console output of the source is
  not modelled.
\<close>

section \<open>Python values\<close>

text \<open>
  The package analyzer works on JSON payloads of third parties, and on HTML pages. Python
  is dynamically typed, so every operation of the source on such a value can raise; the
  exceptions are values of the type \<open>py_error\<close>, and a computation that may raise has
  the type \<open>py_error + 'a\<close>. RecursionError is the interpreter's: it is raised by a call
  that would nest beyond the limit on the depth of the stack.
\<close>

datatype py_error =
  AttributeError | TypeError | KeyError | IndexError | ValueError
  | ConnectionError | HTTPError | JSONDecodeError | RecursionError

text \<open>
  The exceptions of the HTTP library, the subclasses of \<open>requests.exceptions.RequestException\<close>:
  no reply (a refused connection, a timeout, a URL that cannot be sent), an error status,
  and a body that is not JSON (since requests 2.27 the error of \<open>response.json()\<close> is one
  of them).
\<close>

definition is_request_exception :: "py_error \<Rightarrow> bool" where
  "is_request_exception e = (e = ConnectionError \<or> e = HTTPError \<or> e = JSONDecodeError)"

definition sbind :: "py_error + 'a \<Rightarrow> ('a \<Rightarrow> py_error + 'b) \<Rightarrow> py_error + 'b" where
  "sbind m f = (case m of Inl e \<Rightarrow> Inl e | Inr x \<Rightarrow> f x)"

text \<open>
  A Python float is a rational number, an infinity or NaN. Every double is a rational, so
  the comparisons of the source are exact in this model; the rounding of an addition and of
  the parser to the nearest double is not modelled (sums and parsed decimals are exact).
  A number of a JSON payload is such a value too: an integer literal, which Python keeps as
  an \<open>int\<close>, compares and adds like the float of the same value, and the OverflowError of
  \<open>float\<close> on an integer beyond the doubles is not modelled.
\<close>

datatype pyfloat = Fin rat | PInf | NInf | NaN

fun pf_add :: "pyfloat \<Rightarrow> pyfloat \<Rightarrow> pyfloat" where
  "pf_add NaN _ = NaN"
| "pf_add _ NaN = NaN"
| "pf_add PInf NInf = NaN"
| "pf_add NInf PInf = NaN"
| "pf_add PInf _ = PInf"
| "pf_add _ PInf = PInf"
| "pf_add NInf _ = NInf"
| "pf_add _ NInf = NInf"
| "pf_add (Fin a) (Fin b) = Fin (a + b)"

fun pf_le :: "pyfloat \<Rightarrow> pyfloat \<Rightarrow> bool" where
  "pf_le NaN _ = False"
| "pf_le _ NaN = False"
| "pf_le NInf _ = True"
| "pf_le _ PInf = True"
| "pf_le (Fin a) (Fin b) = (a \<le> b)"
| "pf_le _ _ = False"

fun pf_lt :: "pyfloat \<Rightarrow> pyfloat \<Rightarrow> bool" where
  "pf_lt NaN _ = False"
| "pf_lt _ NaN = False"
| "pf_lt PInf _ = False"
| "pf_lt _ NInf = False"
| "pf_lt (Fin a) (Fin b) = (a < b)"
| "pf_lt _ _ = True"

text \<open>\<open>a >= b\<close> of the source is \<open>pf_le b a\<close>.\<close>

definition pf_ge :: "pyfloat \<Rightarrow> pyfloat \<Rightarrow> bool" where
  "pf_ge a b = pf_le b a"

datatype json =
  JNull | JBool bool | JNum pyfloat | JStr string | JArr "json list"
  | JObj "(string \<times> json) list"

text \<open>
  A JSON object is an association list with one binding per key, in the order of the
  payload (a Python dict keeps it). Truthiness is Python's \<open>bool(v)\<close>.
\<close>

fun truthy :: "json \<Rightarrow> bool" where
  "truthy JNull = False"
| "truthy (JBool b) = b"
| "truthy (JNum f) = (f \<noteq> Fin 0)"
| "truthy (JStr s) = (s \<noteq> [])"
| "truthy (JArr xs) = (xs \<noteq> [])"
| "truthy (JObj kvs) = (kvs \<noteq> [])"

text \<open>\<open>v.get(k, d)\<close>: only a dict has the method.\<close>

fun py_get :: "json \<Rightarrow> string \<Rightarrow> json \<Rightarrow> py_error + json" where
  "py_get (JObj kvs) k d = Inr (case map_of kvs k of None \<Rightarrow> d | Some v \<Rightarrow> v)"
| "py_get _ k d = Inl AttributeError"

text \<open>
  \<open>v[k]\<close> for a string \<open>k\<close>: a dict raises KeyError on a missing key, a string or a
  list takes integer indices only, anything else is not subscriptable.
\<close>

fun py_item :: "json \<Rightarrow> string \<Rightarrow> py_error + json" where
  "py_item (JObj kvs) k = (case map_of kvs k of None \<Rightarrow> Inl KeyError | Some v \<Rightarrow> Inr v)"
| "py_item _ k = Inl TypeError"

text \<open>
  \<open>for x in v\<close>: a list gives its elements, a dict its keys, a string its characters;
  nothing else is iterable.
\<close>

fun py_iter :: "json \<Rightarrow> py_error + json list" where
  "py_iter (JArr xs) = Inr xs"
| "py_iter (JObj kvs) = Inr (map (\<lambda>kv. JStr (fst kv)) kvs)"
| "py_iter (JStr s) = Inr (map (\<lambda>c. JStr [c]) s)"
| "py_iter _ = Inl TypeError"

subsection \<open>Strings\<close>

text \<open>
  Strings are byte strings here; \<open>lower\<close> maps the ASCII capitals and leaves every other
  byte alone, \<open>strip\<close> removes ASCII white space at both ends.
\<close>

definition lower_char :: "char \<Rightarrow> char" where
  "lower_char c =
     (if of_char c \<ge> (65::nat) \<and> of_char c \<le> (90::nat) then char_of (of_char c + (32::nat)) else c)"

definition lower :: "string \<Rightarrow> string" where
  "lower s = map lower_char s"

definition is_space :: "char \<Rightarrow> bool" where
  "is_space c = (of_char c \<in> {9::nat, 10, 11, 12, 13, 28, 29, 30, 31, 32})"

definition strip :: "string \<Rightarrow> string" where
  "strip s = rev (dropWhile is_space (rev (dropWhile is_space s)))"

text \<open>\<open>k in d\<close> for two strings: \<open>k\<close> is a contiguous part of \<open>d\<close>.\<close>

fun contains :: "string \<Rightarrow> string \<Rightarrow> bool" where
  "contains [] k = (k = [])"
| "contains (c # cs) k = (prefix k (c # cs) \<or> contains cs k)"

section \<open>The severity scorer: security_analyzer.py\<close>

subsection \<open>The score's buckets\<close>

text \<open>
  Lines 105 to 112 of \<open>_determine_severity\<close>: the accumulated score is compared with the
  thresholds 9, 7 and 4, in this order.
\<close>

definition classify :: "pyfloat \<Rightarrow> string" where
  "classify severity_score =
     (if pf_ge severity_score (Fin 9) then ''CRITICAL''
      else if pf_ge severity_score (Fin 7) then ''HIGH''
      else if pf_ge severity_score (Fin 4) then ''MEDIUM''
      else ''LOW'')"

text \<open>\<open>severity_order\<close> of \<open>_process_vulnerabilities\<close>, line 157.\<close>

definition severity_order :: "(string \<times> nat) list" where
  "severity_order = [(''CRITICAL'', 0), (''HIGH'', 1), (''MEDIUM'', 2), (''LOW'', 3)]"

definition severity_rank :: "string \<Rightarrow> py_error + nat" where
  "severity_rank s = (case map_of severity_order s of None \<Rightarrow> Inl KeyError | Some n \<Rightarrow> Inr n)"

subsection \<open>Python's float()\<close>

text \<open>
  \<open>float(v)\<close> of the source, line 69. A number is itself, a bool is 0 or 1, a string is
  parsed by Python's grammar (white space around it, a sign, then \<open>inf\<close>, \<open>infinity\<close>,
  \<open>nan\<close> in any case, or a decimal number with an optional fraction and exponent, single
  underscores between digits); a string outside the grammar raises ValueError, any other
  value TypeError.
\<close>

definition digit_of :: "char \<Rightarrow> nat option" where
  "digit_of c =
     (if (48::nat) \<le> of_char c \<and> of_char c \<le> (57::nat) then Some (of_char c - 48) else None)"

fun digitpart :: "nat \<Rightarrow> nat \<Rightarrow> string \<Rightarrow> nat \<times> nat \<times> string" where
  "digitpart v n [] = (v, n, [])"
| "digitpart v n (c # cs) =
     (case digit_of c of
        Some d \<Rightarrow> digitpart (10 * v + d) (Suc n) cs
      | None \<Rightarrow>
          (if c = CHR ''_'' \<and> 0 < n \<and> (case cs of [] \<Rightarrow> False | c' # _ \<Rightarrow> digit_of c' \<noteq> None)
           then digitpart v n cs else (v, n, c # cs)))"

definition take_sign :: "string \<Rightarrow> bool \<times> string" where
  "take_sign s =
     (case s of
        [] \<Rightarrow> (False, [])
      | c # cs \<Rightarrow> if c = CHR ''-'' then (True, cs) else if c = CHR ''+'' then (False, cs)
                 else (False, s))"

definition parse_exponent :: "string \<Rightarrow> int option" where
  "parse_exponent s =
     (case s of
        [] \<Rightarrow> Some 0
      | c # cs \<Rightarrow>
          if c = CHR ''e'' \<or> c = CHR ''E'' then
            (case take_sign cs of (neg, ds) \<Rightarrow>
               (case digitpart 0 0 ds of (v, n, rest) \<Rightarrow>
                  if 0 < n \<and> rest = [] then Some (if neg then - int v else int v) else None))
          else None)"

definition scale10 :: "rat \<Rightarrow> int \<Rightarrow> rat" where
  "scale10 q e = (if 0 \<le> e then q * 10 ^ nat e else q / 10 ^ nat (- e))"

definition parse_number :: "string \<Rightarrow> rat option" where
  "parse_number s =
     (case digitpart 0 0 s of (ip, ni, r1) \<Rightarrow>
        (case r1 of
           c # cs \<Rightarrow>
             if c = CHR ''.'' then
               (case digitpart 0 0 cs of (fp, nf, r2) \<Rightarrow>
                  if ni = 0 \<and> nf = 0 then None
                  else map_option (scale10 (of_nat ip + of_nat fp / 10 ^ nf)) (parse_exponent r2))
             else if ni = 0 then None
             else map_option (scale10 (of_nat ip)) (parse_exponent r1)
         | [] \<Rightarrow> if ni = 0 then None else Some (of_nat ip)))"

definition parse_float :: "string \<Rightarrow> pyfloat option" where
  "parse_float s =
     (case take_sign (strip s) of (neg, u) \<Rightarrow>
        if lower u = ''inf'' \<or> lower u = ''infinity'' then Some (if neg then NInf else PInf)
        else if lower u = ''nan'' then Some NaN
        else map_option (\<lambda>q. Fin (if neg then - q else q)) (parse_number u))"

fun py_float :: "json \<Rightarrow> py_error + pyfloat" where
  "py_float (JNum f) = Inr f"
| "py_float (JBool b) = Inr (Fin (if b then 1 else 0))"
| "py_float (JStr s) = (case parse_float s of None \<Rightarrow> Inl ValueError | Some f \<Rightarrow> Inr f)"
| "py_float _ = Inl TypeError"

subsection \<open>The score\<close>

text \<open>The two tables of \<open>__init__\<close>, lines 10 to 34, in the order of the source.\<close>

definition security_critical_packages :: "string list" where
  "security_critical_packages =
     [''cryptography'', ''django'', ''flask'', ''requests'', ''urllib3'', ''pyopenssl'',
      ''paramiko'', ''pyjwt'', ''python-jose'']"

definition critical_keywords :: "string list" where
  "critical_keywords =
     [''remote code execution'', ''rce'', ''arbitrary code'', ''sql injection'',
      ''authentication bypass'', ''privilege escalation'', ''buffer overflow'',
      ''memory corruption'', ''denial of service'', ''information disclosure'',
      ''path traversal'', ''xss'']"

text \<open>
  \<open>s.lower()\<close> is a method of strings only. \<open>str(v)\<close> is the string itself for a string;
  for any other value it is Python's printed form, which the model takes as the parameter
  \<open>repr\<close> (it is the interpreter's, and prints floats).
\<close>

fun py_lower :: "json \<Rightarrow> py_error + string" where
  "py_lower (JStr s) = Inr (lower s)"
| "py_lower _ = Inl AttributeError"

definition py_str :: "(json \<Rightarrow> string) \<Rightarrow> json \<Rightarrow> string" where
  "py_str repr v = (case v of JStr s \<Rightarrow> s | _ \<Rightarrow> repr v)"

text \<open>Lines 64 to 72: the CVSS score, when there is one that \<open>float\<close> accepts.\<close>

definition cvss_add :: "json \<Rightarrow> pyfloat \<Rightarrow> py_error + pyfloat" where
  "cvss_add database_specific severity_score =
     (case database_specific of
        JObj _ \<Rightarrow>
          sbind (py_get database_specific ''cvss_score'' JNull) (\<lambda>cvss_score.
            if truthy cvss_score then
              (case py_float cvss_score of
                 Inr score \<Rightarrow> Inr (pf_add severity_score score)
               | Inl e \<Rightarrow> if e = ValueError \<or> e = TypeError then Inr severity_score else Inl e)
            else Inr severity_score)
      | _ \<Rightarrow> Inr severity_score)"

text \<open>Lines 75 to 78.\<close>

definition description_of :: "(json \<Rightarrow> string) \<Rightarrow> json \<Rightarrow> py_error + string" where
  "description_of repr vulnerability =
     sbind (py_get vulnerability ''summary'' (JStr [])) (\<lambda>summary.
     sbind (py_lower summary) (\<lambda>low.
     sbind (py_get vulnerability ''details'' (JStr [])) (\<lambda>details.
     Inr (low @ lower (py_str repr details)))))"

text \<open>Lines 81 to 83: two points for every keyword the description contains.\<close>

definition keyword_add :: "string \<Rightarrow> pyfloat \<Rightarrow> pyfloat" where
  "keyword_add description severity_score =
     foldl (\<lambda>s keyword. if contains description keyword then pf_add s (Fin 2) else s)
       severity_score critical_keywords"

text \<open>Lines 99 to 103: the loop over the entries of \<open>affected\<close>.\<close>

fun affected_add :: "json list \<Rightarrow> pyfloat \<Rightarrow> py_error + pyfloat" where
  "affected_add [] severity_score = Inr severity_score"
| "affected_add (entry # rest) severity_score =
     (case py_get entry ''ecosystem_specific'' (JObj []) of
        Inl e \<Rightarrow> Inl e
      | Inr ecosystem_specific \<Rightarrow>
          if truthy ecosystem_specific then
            (case py_get ecosystem_specific ''affects_security'' (JBool False) of
               Inl e \<Rightarrow> Inl e
             | Inr flag \<Rightarrow>
                 affected_add rest
                   (if truthy flag then pf_add severity_score (Fin 2) else severity_score))
          else affected_add rest severity_score)"

text \<open>Lines 61 to 103: the accumulator \<open>severity_score\<close> when the mapping starts.\<close>

definition severity_score :: "(json \<Rightarrow> string) \<Rightarrow> json \<Rightarrow> string \<Rightarrow> py_error + pyfloat" where
  "severity_score repr vulnerability package_name =
     sbind (py_get vulnerability ''database_specific'' (JObj [])) (\<lambda>database_specific.
     sbind (cvss_add database_specific (Fin 0)) (\<lambda>s1.
     sbind (description_of repr vulnerability) (\<lambda>description.
     let s2 = keyword_add description s1;
         s3 = (if lower package_name \<in> set security_critical_packages
               then pf_add s2 (Fin 1) else s2);
         s4 = (if list_ex (contains description)
                    [''cryptographic'', ''encryption'', ''authentication'']
               then pf_add s3 (Fin (3 / 2)) else s3)
     in sbind (py_get vulnerability ''affected'' (JArr [])) (\<lambda>affected.
          if truthy affected then sbind (py_iter affected) (\<lambda>entries. affected_add entries s4)
          else Inr s4))))"

definition determine_severity :: "(json \<Rightarrow> string) \<Rightarrow> json \<Rightarrow> string \<Rightarrow> py_error + string" where
  "determine_severity repr vulnerability package_name =
     sbind (severity_score repr vulnerability package_name) (\<lambda>s. Inr (classify s))"

subsection \<open>The report\<close>

record vuln_info =
  vuln_id :: json
  severity :: string
  summary :: json
  details :: json
  fixed_versions :: "json list"
  references :: json
  published :: json
  modified :: json
  ecosystem_specific :: json

record report =
  total_vulnerabilities :: nat
  severity_counts :: "(string \<times> nat) list"
  vulnerabilities :: "vuln_info list"

text \<open>\<open>counts[severity] += 1\<close>, line 128: KeyError when the dict has no such key.\<close>

fun counts_incr :: "string \<Rightarrow> (string \<times> nat) list \<Rightarrow> py_error + (string \<times> nat) list" where
  "counts_incr k [] = Inl KeyError"
| "counts_incr k ((k', n) # rest) =
     (if k = k' then Inr ((k', n + 1) # rest)
      else (case counts_incr k rest of Inl e \<Rightarrow> Inl e | Inr rest' \<Rightarrow> Inr ((k', n) # rest')))"

text \<open>
  A loop that appends to one list: the parts of the elements, in order; the first element
  that raises ends the loop.
\<close>

fun concat_mapM :: "('a \<Rightarrow> py_error + 'b list) \<Rightarrow> 'a list \<Rightarrow> py_error + 'b list" where
  "concat_mapM f [] = Inr []"
| "concat_mapM f (x # xs) =
     (case f x of
        Inl e \<Rightarrow> Inl e
      | Inr ys \<Rightarrow> (case concat_mapM f xs of Inl e \<Rightarrow> Inl e | Inr zs \<Rightarrow> Inr (ys @ zs)))"

text \<open>
  \<open>"fixed" in event\<close>, line 136: a key of a dict, a part of a string, an element of a
  list; no other value is a container.
\<close>

fun py_in :: "string \<Rightarrow> json \<Rightarrow> py_error + bool" where
  "py_in k (JObj kvs) = Inr (k \<in> set (map fst kvs))"
| "py_in k (JStr s) = Inr (contains s k)"
| "py_in k (JArr xs) = Inr (JStr k \<in> set xs)"
| "py_in k _ = Inl TypeError"

text \<open>Lines 131 to 137.\<close>

definition event_fixed :: "json \<Rightarrow> py_error + json list" where
  "event_fixed event =
     sbind (py_in ''fixed'' event) (\<lambda>b.
       if b then sbind (py_item event ''fixed'') (\<lambda>v. Inr [v]) else Inr [])"

definition range_fixed :: "json \<Rightarrow> py_error + json list" where
  "range_fixed range_info =
     sbind (py_get range_info ''type'' JNull) (\<lambda>t.
       if t = JStr ''ECOSYSTEM'' then
         sbind (py_get range_info ''events'' (JArr [])) (\<lambda>events.
         sbind (py_iter events) (concat_mapM event_fixed))
       else Inr [])"

definition affected_fixed :: "json \<Rightarrow> py_error + json list" where
  "affected_fixed affected =
     sbind (py_get affected ''ranges'' (JArr [])) (\<lambda>ranges.
     sbind (py_iter ranges) (concat_mapM range_fixed))"

definition fixed_versions_of :: "json \<Rightarrow> py_error + json list" where
  "fixed_versions_of vuln =
     sbind (py_get vuln ''affected'' (JArr [])) (\<lambda>affected.
     sbind (py_iter affected) (concat_mapM affected_fixed))"

text \<open>
  \<open>v[0]\<close>, line 149: the first element of a list or of a string, IndexError when it is
  empty; a dict of a JSON payload has string keys only, so 0 is a KeyError.
\<close>

fun py_first :: "json \<Rightarrow> py_error + json" where
  "py_first (JArr []) = Inl IndexError"
| "py_first (JArr (x # xs)) = Inr x"
| "py_first (JStr []) = Inl IndexError"
| "py_first (JStr (c # cs)) = Inr (JStr [c])"
| "py_first (JObj kvs) = Inl KeyError"
| "py_first _ = Inl TypeError"

text \<open>Lines 131 to 152: the record of one vulnerability, its severity given.\<close>

definition vuln_info_of :: "json \<Rightarrow> string \<Rightarrow> py_error + vuln_info" where
  "vuln_info_of vuln sev =
     sbind (fixed_versions_of vuln) (\<lambda>fixed.
     sbind (py_get vuln ''id'' (JStr ''Unknown'')) (\<lambda>i.
     sbind (py_get vuln ''summary'' (JStr ''No description available'')) (\<lambda>su.
     sbind (py_get vuln ''details'' (JStr [])) (\<lambda>de.
     sbind (py_get vuln ''references'' (JArr [])) (\<lambda>re.
     sbind (py_get vuln ''published'' (JStr ''Unknown'')) (\<lambda>pu.
     sbind (py_get vuln ''modified'' (JStr ''Unknown'')) (\<lambda>mo.
     sbind (py_get vuln ''affected'' (JArr [JObj []])) (\<lambda>affected.
     sbind (py_first affected) (\<lambda>first.
     sbind (py_get first ''ecosystem_specific'' (JObj [])) (\<lambda>es.
     Inr \<lparr>vuln_id = i, severity = sev, summary = su, details = de, fixed_versions = fixed,
          references = re, published = pu, modified = mo, ecosystem_specific = es\<rparr>))))))))))"

text \<open>Lines 126 to 154: the loop over the vulnerabilities.\<close>

fun process_loop ::
  "(json \<Rightarrow> string) \<Rightarrow> string \<Rightarrow> json list \<Rightarrow> report \<Rightarrow> py_error + report" where
  "process_loop repr package_name [] processed_data = Inr processed_data"
| "process_loop repr package_name (vuln # rest) processed_data =
     (case determine_severity repr vuln package_name of
        Inl e \<Rightarrow> Inl e
      | Inr sev \<Rightarrow>
          (case counts_incr sev (severity_counts processed_data) of
             Inl e \<Rightarrow> Inl e
           | Inr counts \<Rightarrow>
               (case vuln_info_of vuln sev of
                  Inl e \<Rightarrow> Inl e
                | Inr info \<Rightarrow>
                    process_loop repr package_name rest
                      (processed_data\<lparr>severity_counts := counts,
                         vulnerabilities := vulnerabilities processed_data @ [info]\<rparr>))))"

text \<open>
  Lines 157 to 160: \<open>list.sort(key=...)\<close> computes the key of every element, which raises
  KeyError for a severity outside \<open>severity_order\<close>, and sorts by the keys; Python's sort
  is stable, as \<open>sort_key\<close> is.
\<close>

fun mapM :: "('a \<Rightarrow> py_error + 'b) \<Rightarrow> 'a list \<Rightarrow> py_error + 'b list" where
  "mapM f [] = Inr []"
| "mapM f (x # xs) =
     (case f x of
        Inl e \<Rightarrow> Inl e
      | Inr y \<Rightarrow> (case mapM f xs of Inl e \<Rightarrow> Inl e | Inr ys \<Rightarrow> Inr (y # ys)))"

definition sort_by_severity :: "vuln_info list \<Rightarrow> py_error + vuln_info list" where
  "sort_by_severity xs =
     sbind (mapM (\<lambda>x. severity_rank (severity x)) xs) (\<lambda>keys.
       Inr (map snd (sort_key fst (zip keys xs))))"

definition process_vulnerabilities ::
  "(json \<Rightarrow> string) \<Rightarrow> json list \<Rightarrow> string \<Rightarrow> string option \<Rightarrow> py_error + report" where
  "process_vulnerabilities repr vulns package_name package_version =
     sbind (process_loop repr package_name vulns
              \<lparr>total_vulnerabilities = length vulns,
               severity_counts = [(''CRITICAL'', 0), (''HIGH'', 0), (''MEDIUM'', 0), (''LOW'', 0)],
               vulnerabilities = []\<rparr>) (\<lambda>processed_data.
     sbind (sort_by_severity (vulnerabilities processed_data)) (\<lambda>sorted_list.
       Inr (processed_data\<lparr>vulnerabilities := sorted_list\<rparr>)))"

text \<open>
  What the report is compared with: \<open>recorded repr package_name v i\<close> says that \<open>i\<close> is
  the record the loop builds for the vulnerability \<open>v\<close>.
\<close>

definition recorded :: "(json \<Rightarrow> string) \<Rightarrow> string \<Rightarrow> json \<Rightarrow> vuln_info \<Rightarrow> bool" where
  "recorded repr package_name v i =
     (\<exists>sev. determine_severity repr v package_name = Inr sev \<and> vuln_info_of v sev = Inr i)"

text \<open>Three findings for the examples: a harmless one, a critical one with a fix, a bare one.\<close>

definition example_vulns :: "json list" where
  "example_vulns =
     [JObj [(''id'', JStr ''A''), (''summary'', JStr ''minor formatting issue'')],
      JObj [(''id'', JStr ''B''),
            (''database_specific'', JObj [(''cvss_score'', JStr ''9.8'')]),
            (''summary'', JStr ''Remote Code Execution in x''),
            (''affected'', JArr [JObj [(''ranges'', JArr [JObj [(''type'', JStr ''ECOSYSTEM''),
               (''events'', JArr [JObj [(''introduced'', JStr ''0'')],
                                  JObj [(''fixed'', JStr ''1.2'')]])]])]])],
      JObj [(''id'', JStr ''C'')]]"

definition example_report :: report where
  "example_report =
     \<lparr>total_vulnerabilities = 3,
      severity_counts = [(''CRITICAL'', 1), (''HIGH'', 0), (''MEDIUM'', 0), (''LOW'', 2)],
      vulnerabilities =
        [\<lparr>vuln_id = JStr ''B'', severity = ''CRITICAL'',
          summary = JStr ''Remote Code Execution in x'', details = JStr [],
          fixed_versions = [JStr ''1.2''], references = JArr [],
          published = JStr ''Unknown'', modified = JStr ''Unknown'',
          ecosystem_specific = JObj []\<rparr>,
         \<lparr>vuln_id = JStr ''A'', severity = ''LOW'',
          summary = JStr ''minor formatting issue'', details = JStr [],
          fixed_versions = [], references = JArr [],
          published = JStr ''Unknown'', modified = JStr ''Unknown'',
          ecosystem_specific = JObj []\<rparr>,
         \<lparr>vuln_id = JStr ''C'', severity = ''LOW'',
          summary = JStr ''No description available'', details = JStr [],
          fixed_versions = [], references = JArr [],
          published = JStr ''Unknown'', modified = JStr ''Unknown'',
          ecosystem_specific = JObj []\<rparr>]\<rparr>"

text \<open>
  An entry of \<open>affected\<close> with no \<open>ecosystem_specific\<close> annotation: it cannot carry the
  \<open>affects_security\<close> flag.
\<close>

definition plain_entry :: "json \<Rightarrow> bool" where
  "plain_entry e =
     (case e of JObj kvs \<Rightarrow> map_of kvs ''ecosystem_specific'' = None | _ \<Rightarrow> False)"

definition example_rce :: "(string \<times> json) list" where
  "example_rce =
     [(''id'', JStr ''B''),
      (''database_specific'', JObj [(''cvss_score'', JStr ''9.8'')]),
      (''summary'', JStr ''Remote Code Execution in x''),
      (''affected'', JArr [JObj [(''ranges'', JArr [])]])]"

section \<open>The network\<close>

text \<open>
  The world outside is a function from the URL of a GET request to what comes back: no
  reply at all, or a response with its status, its body read as JSON (when it is JSON) and
  its body read as HTML (the tree \<open>BeautifulSoup(text, "html.parser")\<close> builds; that
  parser accepts any text).
\<close>

datatype html = Text string | Tag string "(string \<times> string) list" "html list"

record response =
  status_code :: nat
  json_body :: "json option"
  page :: "html list"

datatype reply = NoReply | Reply response

type_synonym http = "string \<Rightarrow> reply"

text \<open>
  A computation that sends requests gives the URLs it requested, in order, and its
  outcome.
\<close>

type_synonym 'a io = "string list \<times> (py_error + 'a)"

definition iobind :: "'a io \<Rightarrow> ('a \<Rightarrow> 'b io) \<Rightarrow> 'b io" where
  "iobind m f =
     (case m of
        (l, Inl e) \<Rightarrow> (l, Inl e)
      | (l, Inr x) \<Rightarrow> (case f x of (l', r) \<Rightarrow> (l @ l', r)))"

definition http_get :: "http \<Rightarrow> string \<Rightarrow> response io" where
  "http_get http url =
     ([url], case http url of NoReply \<Rightarrow> Inl ConnectionError | Reply r \<Rightarrow> Inr r)"

definition raise_for_status :: "response \<Rightarrow> py_error + unit" where
  "raise_for_status r =
     (if 400 \<le> status_code r \<and> status_code r < 600 then Inl HTTPError else Inr ())"

definition response_json :: "response \<Rightarrow> py_error + json" where
  "response_json r = (case json_body r of None \<Rightarrow> Inl JSONDecodeError | Some j \<Rightarrow> Inr j)"

subsection \<open>The parsed page\<close>

text \<open>
  \<open>find\<close> and \<open>find_all\<close> of a soup or of a tag search its descendants in document
  order. A \<open>class\<close> attribute is a list of names separated by white space, and a class given
  as a string matches when it is one of them. \<open>tag.text\<close> is the text inside the tag,
  concatenated. A tag is always true as a condition, so \<open>if tag\<close> asks whether \<open>find\<close>
  found one.
\<close>

fun descendants :: "html \<Rightarrow> html list" where
  "descendants (Text s) = []"
| "descendants (Tag n a cs) = concat (map (\<lambda>c. c # descendants c) cs)"

definition soup_find_all :: "(html \<Rightarrow> bool) \<Rightarrow> html list \<Rightarrow> html list" where
  "soup_find_all P nodes = filter P (concat (map (\<lambda>c. c # descendants c) nodes))"

definition soup_find :: "(html \<Rightarrow> bool) \<Rightarrow> html list \<Rightarrow> html option" where
  "soup_find P nodes = (case soup_find_all P nodes of [] \<Rightarrow> None | t # ts \<Rightarrow> Some t)"

definition contents :: "html \<Rightarrow> html list" where
  "contents t = (case t of Tag n a cs \<Rightarrow> cs | Text s \<Rightarrow> [])"

definition attrs :: "html \<Rightarrow> (string \<times> string) list" where
  "attrs t = (case t of Tag n a cs \<Rightarrow> a | Text s \<Rightarrow> [])"

fun get_text :: "html \<Rightarrow> string" where
  "get_text (Text s) = s"
| "get_text (Tag n a cs) = concat (map get_text cs)"

fun split_where :: "(char \<Rightarrow> bool) \<Rightarrow> string \<Rightarrow> string list" where
  "split_where P [] = [[]]"
| "split_where P (c # cs) =
     (if P c then [] # split_where P cs
      else (case split_where P cs of w # ws \<Rightarrow> (c # w) # ws | [] \<Rightarrow> [[c]]))"

definition class_names :: "html \<Rightarrow> string list" where
  "class_names t =
     (case map_of (attrs t) ''class'' of
        None \<Rightarrow> []
      | Some v \<Rightarrow> filter (\<lambda>w. w \<noteq> []) (split_where is_space v))"

definition tag_named :: "string \<Rightarrow> html \<Rightarrow> bool" where
  "tag_named n t = (case t of Tag m a cs \<Rightarrow> m = n | Text s \<Rightarrow> False)"

definition tag_with_class :: "string \<Rightarrow> string \<Rightarrow> html \<Rightarrow> bool" where
  "tag_with_class n cls t = (tag_named n t \<and> cls \<in> set (class_names t))"

section \<open>The metadata fetcher: scraper.py\<close>

record api_data =
  pr_name :: string
  pr_version :: json
  pr_author :: json
  pr_license :: json
  pr_description :: json
  pr_homepage :: json
  pr_documentation :: json
  pr_requires_python :: json
  pr_dependencies :: "string list"

record community =
  maintainers :: "string list"

record web_data =
  installation_guide :: string
  latest_releases :: "string list"
  project_stats :: "(string \<times> string) list"
  community_info :: community

text \<open>
  An optional string is true as a condition when it is there and not empty; \<open>given\<close> is
  the string then.
\<close>

definition given :: "string option \<Rightarrow> string option" where
  "given version = (case version of None \<Rightarrow> None | Some v \<Rightarrow> if v = [] then None else Some v)"

definition api_url :: "string \<Rightarrow> string" where
  "api_url package_name = ''https://pypi.org/pypi/'' @ package_name @ ''/json''"

definition page_url :: "string \<Rightarrow> string option \<Rightarrow> string" where
  "page_url package_name version =
     ''https://pypi.org/project/'' @ package_name
       @ (case given version of Some v \<Rightarrow> ''/'' @ v | None \<Rightarrow> [])"

text \<open>
  \<open>d.get(k, default)\<close> with a key that is a JSON value, line 123: a list or a dict is
  not hashable, and only a string can be a key of a JSON object.
\<close>

fun py_get_key :: "json \<Rightarrow> json \<Rightarrow> json \<Rightarrow> py_error + json" where
  "py_get_key (JObj kvs) (JStr k) d = Inr (case map_of kvs k of None \<Rightarrow> d | Some v \<Rightarrow> v)"
| "py_get_key (JObj kvs) (JArr xs) d = Inl TypeError"
| "py_get_key (JObj kvs) (JObj ys) d = Inl TypeError"
| "py_get_key (JObj kvs) k d = Inr d"
| "py_get_key v k d = Inl AttributeError"

text \<open>Line 127: \<open>dep.split(";")[0].strip()\<close> for every entry that is true.\<close>

definition dependency_of :: "json \<Rightarrow> py_error + string list" where
  "dependency_of dep =
     (if truthy dep then
        (case dep of
           JStr s \<Rightarrow> Inr [strip (takeWhile (\<lambda>c. c \<noteq> CHR '';'') s)]
         | _ \<Rightarrow> Inl AttributeError)
      else Inr [])"

text \<open>Lines 125 to 128 of \<open>_extract_dependencies\<close>: the list, from \<open>info.requires_dist\<close>.\<close>

definition requirement_list :: "json \<Rightarrow> py_error + string list" where
  "requirement_list data =
     sbind (py_item data ''info'') (\<lambda>info.
     sbind (py_get info ''requires_dist'' (JArr [])) (\<lambda>requires_dist.
       if truthy requires_dist
       then sbind (py_iter requires_dist) (concat_mapM dependency_of)
       else Inr []))"

text \<open>
  \<open>_extract_dependencies\<close>, lines 117 to 128. \<open>in_releases\<close> is the version when the
  condition of line 119 holds. \<open>release_data\<close> is computed and not used, but computing it
  can raise.
\<close>

definition extract_dependencies :: "json \<Rightarrow> string option \<Rightarrow> py_error + string list" where
  "extract_dependencies data version =
     sbind (case given version of
              Some v \<Rightarrow>
                sbind (py_get data ''releases'' (JObj [])) (\<lambda>releases.
                sbind (py_in v releases) (\<lambda>b. Inr (if b then Some v else None)))
            | None \<Rightarrow> Inr None) (\<lambda>in_releases.
     sbind (case in_releases of
              Some v \<Rightarrow>
                sbind (py_item data ''releases'') (\<lambda>releases. py_item releases v)
            | None \<Rightarrow>
                sbind (py_item data ''info'') (\<lambda>info.
                sbind (py_item info ''version'') (\<lambda>latest.
                sbind (py_item data ''releases'') (\<lambda>releases.
                py_get_key releases latest (JArr []))))) (\<lambda>release_data.
     requirement_list data))"

text \<open>\<open>_fetch_api_data\<close>, lines 29 to 47: the record, from the payload.\<close>

definition api_record :: "json \<Rightarrow> string \<Rightarrow> string option \<Rightarrow> py_error + api_data" where
  "api_record data package_name version =
     sbind (py_item data ''info'') (\<lambda>info.
     sbind (case given version of
              Some v \<Rightarrow> Inr (JStr v)
            | None \<Rightarrow> py_item info ''version'') (\<lambda>ver.
     sbind (py_get info ''author'' (JStr ''Unknown'')) (\<lambda>au.
     sbind (py_get info ''license'' (JStr ''Not specified'')) (\<lambda>li.
     sbind (py_get info ''summary'' (JStr ''No description available'')) (\<lambda>de.
     sbind (py_get info ''home_page'' (JStr ''Not available'')) (\<lambda>ho.
     sbind (py_get info ''docs_url'' (JStr ''Not available'')) (\<lambda>doc.
     sbind (py_get info ''requires_python'' (JStr ''Not specified'')) (\<lambda>rp.
     sbind (extract_dependencies data version) (\<lambda>deps.
     Inr \<lparr>pr_name = package_name, pr_version = ver, pr_author = au, pr_license = li,
          pr_description = de, pr_homepage = ho, pr_documentation = doc,
          pr_requires_python = rp, pr_dependencies = deps\<rparr>)))))))))"

definition fetch_api_data :: "http \<Rightarrow> string \<Rightarrow> string option \<Rightarrow> api_data io" where
  "fetch_api_data http package_name version =
     iobind (http_get http (api_url package_name)) (\<lambda>response.
       ([], sbind (raise_for_status response) (\<lambda>u.
            sbind (response_json response) (\<lambda>data.
            api_record data package_name version))))"

text \<open>
  \<open>_extract_installation_guide\<close>, lines 70 to 73. The default is an ordinary string
  literal of the source, not an f-string: the braces stay as they are.
\<close>

definition extract_installation_guide :: "html list \<Rightarrow> string" where
  "extract_installation_guide soup =
     (case soup_find (tag_with_class ''span'' ''package-header__pip-instructions'') soup of
        Some install_div \<Rightarrow> strip (get_text install_div)
      | None \<Rightarrow> ''pip install {package_name}'')"

text \<open>\<open>_extract_latest_releases\<close>, lines 76 to 84.\<close>

definition extract_latest_releases :: "html list \<Rightarrow> string list" where
  "extract_latest_releases soup =
     concat (map (\<lambda>release.
         case soup_find (tag_with_class ''p'' ''release__version'') (contents release) of
           Some v \<Rightarrow> [strip (get_text v)]
         | None \<Rightarrow> [])
       (take 5 (soup_find_all (tag_with_class ''a'' ''release__card'') soup)))"

text \<open>\<open>_extract_project_stats\<close>, lines 87 to 97; an assignment to a key replaces its value.\<close>

definition extract_project_stats :: "html list \<Rightarrow> (string \<times> string) list" where
  "extract_project_stats soup =
     (case soup_find (tag_with_class ''div'' ''package-header__stats'') soup of
        Some stats_div \<Rightarrow>
          foldl (\<lambda>stats stat.
              case (soup_find (tag_with_class ''span'' ''package-header__stat-name'') (contents stat),
                    soup_find (tag_with_class ''span'' ''package-header__stat-value'') (contents stat)) of
                (Some n, Some v) \<Rightarrow> AList.update (strip (get_text n)) (strip (get_text v)) stats
              | _ \<Rightarrow> stats)
            [] (soup_find_all (tag_named ''p'') (contents stats_div))
      | None \<Rightarrow> [])"

text \<open>\<open>_extract_community_info\<close>, lines 100 to 114.\<close>

definition extract_community_info :: "html list \<Rightarrow> community" where
  "extract_community_info soup =
     \<lparr>maintainers =
        (case soup_find (tag_with_class ''div'' ''maintainers'') soup of
           Some maintainers_div \<Rightarrow>
             map (\<lambda>m. strip (get_text m))
               (soup_find_all (tag_with_class ''span'' ''maintainer'') (contents maintainers_div))
         | None \<Rightarrow> [])\<rparr>"

text \<open>\<open>_scrape_pypi_page\<close>, lines 50 to 67.\<close>

definition scrape_pypi_page :: "http \<Rightarrow> string \<Rightarrow> string option \<Rightarrow> web_data io" where
  "scrape_pypi_page http package_name version =
     iobind (http_get http (page_url package_name version)) (\<lambda>response.
       ([], sbind (raise_for_status response) (\<lambda>u.
            Inr \<lparr>installation_guide = extract_installation_guide (page response),
                 latest_releases = extract_latest_releases (page response),
                 project_stats = extract_project_stats (page response),
                 community_info = extract_community_info (page response)\<rparr>)))"

text \<open>
  \<open>fetch_package_info\<close>, lines 6 to 26. The keys of the two dicts are disjoint, so the
  merged dict is the pair of them.
\<close>

definition fetch_package_info :: "http \<Rightarrow> string \<Rightarrow> string option \<Rightarrow> (api_data \<times> web_data) io" where
  "fetch_package_info http package_name version =
     iobind (fetch_api_data http package_name version) (\<lambda>api_data.
     iobind (scrape_pypi_page http package_name version) (\<lambda>web_data.
       ([], Inr (api_data, web_data))))"

section \<open>The issue tracker: issue_tracker.py\<close>

record repo_info =
  ri_name :: string
  ri_url :: string
  ri_source :: string

record repo_stats =
  open_issues :: int
  pull_requests :: int

record issue =
  issue_title :: string
  issue_url :: string
  issue_comments :: string

datatype issue_analysis =
  ErrorRecord string
  | Analysis repo_info repo_stats "issue list" "issue list"

text \<open>\<open>s.strip(chars)\<close>: the characters of \<open>chars\<close> are removed at both ends.\<close>

definition strip_chars :: "string \<Rightarrow> string \<Rightarrow> string" where
  "strip_chars chars s =
     rev (dropWhile (\<lambda>c. c \<in> set chars) (rev (dropWhile (\<lambda>c. c \<in> set chars) s)))"

text \<open>
  Lines 51 to 58 of \<open>_get_repo_from_pypi\<close>: the first URL of \<open>project_urls\<close> that is true
  and contains github.com; a true value that is not a string has no \<open>lower\<close>. The empty
  dict that the source returns when there is none is \<open>None\<close>.
\<close>

fun first_github :: "string \<Rightarrow> (string \<times> json) list \<Rightarrow> py_error + repo_info option" where
  "first_github package_name [] = Inr None"
| "first_github package_name ((url_type, u) # rest) =
     (if truthy u then
        (case u of
           JStr s \<Rightarrow>
             if contains (lower s) ''github.com''
             then Inr (Some \<lparr>ri_name = package_name, ri_url = strip_chars ''/'' s,
                             ri_source = ''PyPI project_urls''\<rparr>)
             else first_github package_name rest
         | _ \<Rightarrow> Inl AttributeError)
      else first_github package_name rest)"

text \<open>
  \<open>_get_repo_from_pypi\<close>, lines 39 to 62. \<open>except Exception\<close> turns every exception of
  the body into the empty dict; \<open>items()\<close> is a method of dicts only.
\<close>

definition get_repo_from_pypi :: "http \<Rightarrow> string \<Rightarrow> string list \<times> repo_info option" where
  "get_repo_from_pypi http package_name =
     (case iobind (http_get http (api_url package_name)) (\<lambda>response.
             ([], sbind (raise_for_status response) (\<lambda>u.
                  sbind (response_json response) (\<lambda>data.
                  sbind (py_item data ''info'') (\<lambda>info.
                  sbind (py_get info ''project_urls'' (JObj [])) (\<lambda>project_urls.
                    case project_urls of
                      JObj kvs \<Rightarrow> first_github package_name kvs
                    | _ \<Rightarrow> Inl AttributeError)))))) of
        (l, Inl e) \<Rightarrow> (l, None)
      | (l, Inr found) \<Rightarrow> (l, found))"

text \<open>
  \<open>int(s)\<close> for a string: white space around it, a sign, digits with single underscores
  between them; ValueError otherwise.
\<close>

definition py_int :: "string \<Rightarrow> py_error + int" where
  "py_int s =
     (case take_sign (strip s) of (neg, ds) \<Rightarrow>
        (case digitpart 0 0 ds of (v, n, rest) \<Rightarrow>
           if 0 < n \<and> rest = [] then Inr (if neg then - int v else int v) else Inl ValueError))"

definition tag_with_id :: "string \<Rightarrow> string \<Rightarrow> html \<Rightarrow> bool" where
  "tag_with_id n i t = (tag_named n t \<and> map_of (attrs t) ''id'' = Some i)"

text \<open>
  A class given as the compiled pattern \<open>X.*\<close> matches when \<open>X\<close> occurs in one of the
  class names (the pattern is searched for, not anchored).
\<close>

definition tag_with_class_like :: "string \<Rightarrow> string \<Rightarrow> html \<Rightarrow> bool" where
  "tag_with_class_like n pat t = (tag_named n t \<and> list_ex (\<lambda>w. contains w pat) (class_names t))"

text \<open>Lines 73 to 79: a counter, when the page has it and it has a \<open>title\<close>.\<close>

definition counter_value :: "html list \<Rightarrow> string \<Rightarrow> int \<Rightarrow> py_error + int" where
  "counter_value soup i current =
     (case soup_find (tag_with_id ''span'' i) soup of
        Some counter \<Rightarrow>
          (case map_of (attrs counter) ''title'' of
             Some t \<Rightarrow> py_int t
           | None \<Rightarrow> Inr current)
      | None \<Rightarrow> Inr current)"

text \<open>\<open>_get_repo_stats\<close>, lines 64 to 90.\<close>

definition get_repo_stats :: "http \<Rightarrow> string \<Rightarrow> string list \<times> repo_stats" where
  "get_repo_stats http repo_url =
     (case iobind (http_get http repo_url) (\<lambda>response.
             ([], sbind (raise_for_status response) (\<lambda>u.
                  sbind (counter_value (page response) ''issues-repo-tab-count'' 0) (\<lambda>i.
                  sbind (counter_value (page response) ''pull-requests-repo-tab-count'' 0) (\<lambda>p.
                  Inr \<lparr>open_issues = i, pull_requests = p\<rparr>))))) of
        (l, Inl e) \<Rightarrow> (l, \<lparr>open_issues = 0, pull_requests = 0\<rparr>)
      | (l, Inr stats) \<Rightarrow> (l, stats))"

text \<open>
  Lines 103 to 118, and again lines 139 to 154: the entry of one row, none when the row has
  no title or no link; \<open>title_link['href']\<close> raises KeyError when the link has no
  \<open>href\<close>.
\<close>

definition issue_of_row :: "html \<Rightarrow> py_error + issue list" where
  "issue_of_row row =
     (case soup_find (tag_with_class_like ''h3'' ''markdown-title'') (contents row) of
        None \<Rightarrow> Inr []
      | Some title_elem \<Rightarrow>
          (case soup_find (tag_named ''a'') (contents title_elem) of
             None \<Rightarrow> Inr []
           | Some title_link \<Rightarrow>
               (case map_of (attrs title_link) ''href'' of
                  None \<Rightarrow> Inl KeyError
                | Some href \<Rightarrow>
                    Inr [\<lparr>issue_title = strip (get_text title_link),
                          issue_url = ''https://github.com'' @ href,
                          issue_comments = ''0''\<rparr>])))"

text \<open>
  The two listings differ in the URL only: the body of \<open>_get_recent_issues\<close>, lines 92 to
  126, and of \<open>_get_top_issues\<close>, lines 128 to 160.
\<close>

definition issue_listing :: "http \<Rightarrow> string \<Rightarrow> string list \<times> issue list" where
  "issue_listing http issues_url =
     (case iobind (http_get http issues_url) (\<lambda>response.
             ([], sbind (raise_for_status response) (\<lambda>u.
                  concat_mapM issue_of_row
                    (take 5 (soup_find_all (tag_with_class_like ''div'' ''IssueRow-'')
                               (page response)))))) of
        (l, Inl e) \<Rightarrow> (l, [])
      | (l, Inr issues) \<Rightarrow> (l, issues))"

definition get_recent_issues :: "http \<Rightarrow> string \<Rightarrow> string list \<times> issue list" where
  "get_recent_issues http repo_url = issue_listing http (repo_url @ ''/issues'')"

definition get_top_issues :: "http \<Rightarrow> string \<Rightarrow> string list \<times> issue list" where
  "get_top_issues http repo_url =
     issue_listing http (repo_url @ ''/issues?q=is:issue&sort=comments'')"

text \<open>
  Line 23 evaluates \<open>self._search_github_repo(package_name)\<close>. The class \<open>IssueTracker\<close>,
  lines 10 to 160, defines \<open>__init__\<close>, \<open>analyze_issues\<close>, \<open>_get_repo_from_pypi\<close>,
  \<open>_get_repo_stats\<close>, \<open>_get_recent_issues\<close> and \<open>_get_top_issues\<close>; it has no base
  class and no \<open>__getattr__\<close>, and no file of the package assigns the attribute. The
  lookup of the attribute raises AttributeError, before anything is called.
\<close>

definition search_github_repo :: "string \<Rightarrow> py_error + repo_info option" where
  "search_github_repo package_name = Inl AttributeError"

text \<open>
  \<open>analyze_issues\<close>, lines 19 to 37. A function that cannot raise is run for its requests
  and its value by \<open>run\<close>.
\<close>

definition run :: "string list \<times> 'a \<Rightarrow> 'a io" where
  "run m = (fst m, Inr (snd m))"

definition analyze_issues :: "http \<Rightarrow> string \<Rightarrow> issue_analysis io" where
  "analyze_issues http package_name =
     iobind (run (get_repo_from_pypi http package_name)) (\<lambda>repo_info.
     iobind ([], case repo_info of
                   None \<Rightarrow> search_github_repo package_name
                 | Some r \<Rightarrow> Inr (Some r)) (\<lambda>repo_info.
       case repo_info of
         None \<Rightarrow>
           ([], Inr (ErrorRecord (''Could not find GitHub repository for '' @ package_name)))
       | Some r \<Rightarrow>
           iobind (run (get_repo_stats http (ri_url r))) (\<lambda>main_stats.
           iobind (run (get_recent_issues http (ri_url r))) (\<lambda>recent.
           iobind (run (get_top_issues http (ri_url r))) (\<lambda>top.
             ([], Inr (Analysis r main_stats recent top)))))))"

section \<open>The dependency graph: visualizer.py\<close>

text \<open>
  The \<open>Digraph\<close> is the list of its statements, in the order the source adds them. The
  state of \<open>create_dependency_graph\<close> is the set \<open>visited\<close> and the graph; the model adds
  the trace \<open>expansions\<close>: the name and the depth of every call of \<open>add_dependencies\<close>
  that passes the guard of line 33, each of which makes the lookup of line 39 once.
\<close>

datatype stmt =
  Attr "string option" "(string \<times> string) list"
  | Node string string "(string \<times> string) list"
  | Edge string string

record gstate =
  visited :: "string set"
  comment :: string
  body :: "stmt list"
  expansions :: "(string \<times> int) list"

text \<open>The nested \<open>fetch_package_info\<close>, lines 27 to 30.\<close>

definition graph_fetch_package_info :: "http \<Rightarrow> string \<Rightarrow> py_error + json" where
  "graph_fetch_package_info http pkg_name =
     (case http (api_url pkg_name) of
        NoReply \<Rightarrow> Inl ConnectionError
      | Reply response \<Rightarrow> sbind (raise_for_status response) (\<lambda>u. response_json response))"

text \<open>Line 49: \<open>dep.split(" ")[0].split(";")[0].strip()\<close>, of a string.\<close>

definition dep_name_of :: "json \<Rightarrow> py_error + string" where
  "dep_name_of dep =
     (case dep of
        JStr s \<Rightarrow>
          Inr (strip (takeWhile (\<lambda>c. c \<noteq> CHR '';'') (takeWhile (\<lambda>c. c \<noteq> CHR '' '') s)))
      | _ \<Rightarrow> Inl AttributeError)"

text \<open>
  \<open>add_dependencies\<close>, lines 32 to 58, and its loop over \<open>requires_dist\<close>, lines 46 to
  54. The outcome is the exception raised, if any, and the state then: the set and the
  graph are changed in place, so what was done before an exception stays done. \<open>tried\<close>
  is the outcome of the \<open>try\<close> block; the handler of line 56 takes the exceptions of the
  HTTP library and lets every other one pass.

  The interpreter bounds the nesting of calls (1000 frames unless the limit is changed,
  which the source does not do). The call of \<open>add_dependencies\<close> at \<open>current_depth\<close> runs
  \<open>current_depth\<close> frames above the first one, and what it nests deepest is the lookup of
  line 39: \<open>fetch_package_info\<close>, \<open>requests.get\<close> and the calls of the HTTP library.
  \<open>recursion_budget\<close> is the number of nested calls of \<open>add_dependencies\<close> whose lookup
  fits under the limit. In the call at a \<open>current_depth\<close> of \<open>recursion_budget\<close> or more,
  line 39 raises RecursionError, after line 36 has marked the package; the exception is not
  one of the HTTP library's, so the handler of line 56 lets it pass, in this call and in
  every caller, and it ends the construction.
\<close>

function add_dependencies ::
    "(json \<Rightarrow> string) \<Rightarrow> http \<Rightarrow> int \<Rightarrow> int \<Rightarrow> string \<Rightarrow> int \<Rightarrow> gstate
      \<Rightarrow> py_error option \<times> gstate"
  and dependencies_loop ::
    "(json \<Rightarrow> string) \<Rightarrow> http \<Rightarrow> int \<Rightarrow> int \<Rightarrow> string \<Rightarrow> int \<Rightarrow> json list \<Rightarrow> gstate
      \<Rightarrow> py_error option \<times> gstate"
where
  "add_dependencies repr http recursion_budget max_depth pkg_name current_depth st =
     (if current_depth \<ge> max_depth \<or> pkg_name \<in> visited st then (None, st)
      else
        let st1 = st\<lparr>visited := insert pkg_name (visited st),
                     expansions := expansions st @ [(pkg_name, current_depth)]\<rparr>;
            tried =
              (case (if recursion_budget \<le> current_depth then Inl RecursionError
                     else graph_fetch_package_info http pkg_name) of
                 Inl e \<Rightarrow> (Some e, st1)
               | Inr data \<Rightarrow>
                   (case sbind (py_item data ''info'')
                           (\<lambda>info. py_get info ''requires_dist'' (JArr [])) of
                      Inl e \<Rightarrow> (Some e, st1)
                    | Inr requires_dist \<Rightarrow>
                        (case sbind (py_item data ''info'')
                                (\<lambda>info. py_get info ''version'' (JStr ''unknown'')) of
                           Inl e \<Rightarrow> (Some e, st1)
                         | Inr version \<Rightarrow>
                             let st2 = st1\<lparr>body := body st1
                                   @ [Node pkg_name (pkg_name @ [CHR 0x0A] @ py_str repr version) []]\<rparr>
                             in if truthy requires_dist then
                                  (case py_iter requires_dist of
                                     Inl e \<Rightarrow> (Some e, st2)
                                   | Inr deps \<Rightarrow>
                                       dependencies_loop repr http recursion_budget max_depth
                                         pkg_name current_depth deps st2)
                                else (None, st2))))
        in case tried of
             (Some e, st3) \<Rightarrow>
               if is_request_exception e
               then (None, st3\<lparr>body := body st3
                       @ [Node pkg_name pkg_name [(''fillcolor'', ''lightgray'')]]\<rparr>)
               else (Some e, st3)
           | (None, st3) \<Rightarrow> (None, st3))"
| "dependencies_loop repr http recursion_budget max_depth pkg_name current_depth [] st = (None, st)"
| "dependencies_loop repr http recursion_budget max_depth pkg_name current_depth (dep # rest) st =
     (if truthy dep then
        (case dep_name_of dep of
           Inl e \<Rightarrow> (Some e, st)
         | Inr dep_name \<Rightarrow>
             if dep_name \<noteq> [] then
               let st1 = st\<lparr>body := body st @ [Edge pkg_name dep_name]\<rparr> in
               if dep_name \<notin> visited st1 then
                 (case add_dependencies repr http recursion_budget max_depth dep_name
                         (current_depth + 1) st1 of
                    (Some e, st2) \<Rightarrow> (Some e, st2)
                  | (None, st2) \<Rightarrow>
                      dependencies_loop repr http recursion_budget max_depth pkg_name
                        current_depth rest st2)
               else dependencies_loop repr http recursion_budget max_depth pkg_name
                      current_depth rest st1
             else dependencies_loop repr http recursion_budget max_depth pkg_name
                    current_depth rest st)
      else dependencies_loop repr http recursion_budget max_depth pkg_name current_depth rest st)"
  by pat_completeness auto
termination
  by (relation "measures
        [\<lambda>x. case x of
                Inl (repr, http, recursion_budget, max_depth, pkg_name, current_depth, st) \<Rightarrow>
                  if current_depth < max_depth then 2 * nat (max_depth - current_depth) else 0
              | Inr (repr, http, recursion_budget, max_depth, pkg_name, current_depth, deps, st) \<Rightarrow>
                  if current_depth < max_depth then 2 * nat (max_depth - current_depth) - 1 else 1,
         \<lambda>x. case x of
                Inl (repr, http, recursion_budget, max_depth, pkg_name, current_depth, st) \<Rightarrow> 0
              | Inr (repr, http, recursion_budget, max_depth, pkg_name, current_depth, deps, st) \<Rightarrow>
                  length deps]")
    auto

text \<open>
  \<open>create_dependency_graph\<close>, lines 7 to 62: the state of lines 18 to 25, then the call of
  line 61.
\<close>

definition initial_state :: "string \<Rightarrow> gstate" where
  "initial_state package_name =
     \<lparr>visited = {},
      comment = ''Dependency Graph for '' @ package_name,
      body = [Attr None [(''rankdir'', ''LR'')],
              Attr (Some ''node'') [(''shape'', ''box''), (''style'', ''rounded,filled''),
                                    (''fillcolor'', ''lightblue'')]],
      expansions = []\<rparr>"

definition create_dependency_graph ::
    "(json \<Rightarrow> string) \<Rightarrow> http \<Rightarrow> int \<Rightarrow> string \<Rightarrow> int \<Rightarrow> py_error option \<times> gstate" where
  "create_dependency_graph repr http recursion_budget package_name max_depth =
     add_dependencies repr http recursion_budget max_depth package_name 0
       (initial_state package_name)"

text \<open>
  What the properties of the graph are stated with. The names that have a node statement:
\<close>

definition node_names :: "stmt list \<Rightarrow> string list" where
  "node_names b = concat (map (\<lambda>s. case s of Node p l a \<Rightarrow> [p] | _ \<Rightarrow> []) b)"

text \<open>
  The names the loop of lines 46 to 54 finds in a list of requirements, and the names it
  finds for a package: those in the \<open>requires_dist\<close> of its registry record.
\<close>

definition dep_names :: "json list \<Rightarrow> string list" where
  "dep_names deps =
     concat (map (\<lambda>dep.
        if truthy dep then
          (case dep_name_of dep of Inr n \<Rightarrow> if n \<noteq> [] then [n] else [] | Inl e \<Rightarrow> [])
        else []) deps)"

definition declared_names :: "http \<Rightarrow> string \<Rightarrow> string list" where
  "declared_names http p =
     (case graph_fetch_package_info http p of
        Inl e \<Rightarrow> []
      | Inr data \<Rightarrow>
          (case sbind (py_item data ''info'') (\<lambda>info. py_get info ''requires_dist'' (JArr [])) of
             Inl e \<Rightarrow> []
           | Inr requires_dist \<Rightarrow>
               if truthy requires_dist then
                 (case py_iter requires_dist of Inl e \<Rightarrow> [] | Inr deps \<Rightarrow> dep_names deps)
               else []))"

text \<open>
  A registry record is well formed when \<open>add_dependencies\<close> can read it: \<open>info\<close> is a
  dict, and \<open>requires_dist\<close> is empty or a collection whose true entries are strings. A
  failed lookup counts as well formed: it is handled.
\<close>

definition well_formed :: "http \<Rightarrow> string \<Rightarrow> bool" where
  "well_formed http p =
     (case graph_fetch_package_info http p of
        Inl e \<Rightarrow> True
      | Inr data \<Rightarrow>
          (case sbind (py_item data ''info'') (\<lambda>info. py_get info ''requires_dist'' (JArr [])) of
             Inl e \<Rightarrow> False
           | Inr requires_dist \<Rightarrow>
               (case sbind (py_item data ''info'') (\<lambda>info. py_get info ''version'' (JStr ''unknown'')) of
                  Inl e \<Rightarrow> False
                | Inr version \<Rightarrow>
                    if truthy requires_dist then
                      (case py_iter requires_dist of
                         Inl e \<Rightarrow> False
                       | Inr deps \<Rightarrow> list_all (\<lambda>dep. \<not> truthy dep \<or> isl (dep_name_of dep) = False) deps)
                    else True)))"

text \<open>
  The changes \<open>add_dependencies\<close> makes to the state, one at a time: it expands a
  package it has not visited, at a depth below \<open>max_depth\<close>, that is the root at depth 0
  or the target of an edge, one level below an expansion (with a degraded node at once when
  the lookup fails, and with nothing more when the lookup does not fit the stack); it adds
  the node of an expanded package; it adds an edge from an expanded package to a name its
  record declares.
\<close>

inductive step :: "http \<Rightarrow> int \<Rightarrow> int \<Rightarrow> string \<Rightarrow> gstate \<Rightarrow> gstate \<Rightarrow> bool"
  for http recursion_budget max_depth package_name where
  expand:
    "0 \<le> d \<Longrightarrow> d < max_depth \<Longrightarrow> p \<notin> visited st
     \<Longrightarrow> p = package_name \<or> (\<exists>q. Edge q p \<in> set (body st))
     \<Longrightarrow> d = 0 \<or> (\<exists>q. (q, d - 1) \<in> set (expansions st))
     \<Longrightarrow> d < recursion_budget
     \<Longrightarrow> graph_fetch_package_info http p = Inr data
     \<Longrightarrow> step http recursion_budget max_depth package_name st
           (st\<lparr>visited := insert p (visited st), expansions := expansions st @ [(p, d)]\<rparr>)"
| failed:
    "0 \<le> d \<Longrightarrow> d < max_depth \<Longrightarrow> p \<notin> visited st
     \<Longrightarrow> p = package_name \<or> (\<exists>q. Edge q p \<in> set (body st))
     \<Longrightarrow> d = 0 \<or> (\<exists>q. (q, d - 1) \<in> set (expansions st))
     \<Longrightarrow> d < recursion_budget
     \<Longrightarrow> graph_fetch_package_info http p = Inl e
     \<Longrightarrow> step http recursion_budget max_depth package_name st
           (st\<lparr>visited := insert p (visited st), expansions := expansions st @ [(p, d)],
               body := body st @ [Node p p [(''fillcolor'', ''lightgray'')]]\<rparr>)"
| too_deep:
    "0 \<le> d \<Longrightarrow> d < max_depth \<Longrightarrow> p \<notin> visited st
     \<Longrightarrow> p = package_name \<or> (\<exists>q. Edge q p \<in> set (body st))
     \<Longrightarrow> d = 0 \<or> (\<exists>q. (q, d - 1) \<in> set (expansions st))
     \<Longrightarrow> recursion_budget \<le> d
     \<Longrightarrow> step http recursion_budget max_depth package_name st
           (st\<lparr>visited := insert p (visited st), expansions := expansions st @ [(p, d)]\<rparr>)"
| node:
    "p \<in> visited st \<Longrightarrow> p \<notin> set (node_names (body st))
     \<Longrightarrow> graph_fetch_package_info http p = Inr data
     \<Longrightarrow> step http recursion_budget max_depth package_name st
           (st\<lparr>body := body st @ [Node p l []]\<rparr>)"
| edge:
    "p \<in> visited st \<Longrightarrow> n \<in> set (declared_names http p)
     \<Longrightarrow> step http recursion_budget max_depth package_name st
           (st\<lparr>body := body st @ [Edge p n]\<rparr>)"

text \<open>
  Predicates of the proofs: the invariants of the state, and of an outcome. \<open>overflowed\<close>
  says where a RecursionError comes from: an expansion at a depth the budget does not
  cover.
\<close>

definition wf_state :: "gstate \<Rightarrow> bool" where
  "wf_state st = (set (node_names (body st)) \<subseteq> visited st)"

definition overflowed :: "int \<Rightarrow> gstate \<Rightarrow> bool" where
  "overflowed B st = (\<exists>p d. (p, d) \<in> set (expansions st) \<and> B \<le> d)"

definition good ::
    "http \<Rightarrow> int \<Rightarrow> int \<Rightarrow> string \<Rightarrow> gstate \<Rightarrow> py_error option \<times> gstate \<Rightarrow> bool" where
  "good http B M package_name st res =
     ((step http B M package_name)\<^sup>*\<^sup>* st (snd res)
      \<and> (\<forall>e. fst res = Some e \<longrightarrow>
            \<not> is_request_exception e
            \<and> (overflowed B (snd res) \<or> (\<exists>q \<in> visited (snd res). \<not> well_formed http q)))
      \<and> (overflowed B (snd res) \<longrightarrow> overflowed B st \<or> fst res = Some RecursionError))"

definition graph_inv :: "http \<Rightarrow> int \<Rightarrow> int \<Rightarrow> gstate \<Rightarrow> bool" where
  "graph_inv http B M st =
     (distinct (map fst (expansions st)) \<and> visited st = fst ` set (expansions st)
      \<and> (\<forall>(p, d) \<in> set (expansions st). 0 \<le> d \<and> d < M)
      \<and> (\<forall>(p, d) \<in> set (expansions st). d = 0 \<or> (\<exists>q. (q, d - 1) \<in> set (expansions st)))
      \<and> distinct (node_names (body st)) \<and> set (node_names (body st)) \<subseteq> visited st
      \<and> (\<forall>p n. Edge p n \<in> set (body st)
            \<longrightarrow> p \<in> visited st \<and> n \<in> set (declared_names http p))
      \<and> (\<forall>p d. (p, d) \<in> set (expansions st) \<and> d < B \<and> isl (graph_fetch_package_info http p)
            \<longrightarrow> Node p p [(''fillcolor'', ''lightgray'')] \<in> set (body st)))"

definition inside :: "string set \<Rightarrow> gstate \<Rightarrow> bool" where
  "inside S st = (visited st \<subseteq> S \<and> (\<forall>p n. Edge p n \<in> set (body st) \<longrightarrow> n \<in> S))"

text \<open>
  A registry for the examples: \<open>a\<close> requires \<open>b\<close>, \<open>b\<close> requires \<open>a\<close> and \<open>c\<close>, and
  the lookup of \<open>c\<close> (of anything else) is answered by 404.
\<close>

definition registry_entry :: "string \<Rightarrow> string list \<Rightarrow> reply" where
  "registry_entry v deps =
     Reply \<lparr>status_code = 200,
            json_body = Some (JObj [(''info'', JObj [(''version'', JStr v),
                                                     (''requires_dist'', JArr (map JStr deps))])]),
            page = []\<rparr>"

definition cycle_http :: http where
  "cycle_http url =
     (if url = api_url ''a'' then registry_entry ''1.0'' [''b'']
      else if url = api_url ''b'' then registry_entry ''2.0'' [''a'', ''c (>=1.0)'']
      else Reply \<lparr>status_code = 404, json_body = None, page = []\<rparr>)"

definition cycle_graph :: gstate where
  "cycle_graph =
     \<lparr>visited = {''a'', ''b'', ''c''},
      comment = ''Dependency Graph for a'',
      body = [Attr None [(''rankdir'', ''LR'')],
              Attr (Some ''node'') [(''shape'', ''box''), (''style'', ''rounded,filled''),
                                    (''fillcolor'', ''lightblue'')],
              Node ''a'' (''a'' @ [CHR 0x0A] @ ''1.0'') [], Edge ''a'' ''b'',
              Node ''b'' (''b'' @ [CHR 0x0A] @ ''2.0'') [], Edge ''b'' ''a'', Edge ''b'' ''c'',
              Node ''c'' ''c'' [(''fillcolor'', ''lightgray'')]],
      expansions = [(''a'', 0), (''b'', 1), (''c'', 2)]\<rparr>"

text \<open>
  A registry with a long chain: the package of \<open>n\<close> letters \<open>x\<close>, for \<open>n\<close> from 1 to
  1200, requires the package of \<open>n + 1\<close> letters, and the last one requires the first.
\<close>

definition chain_name :: "nat \<Rightarrow> string" where
  "chain_name n = replicate n (CHR ''x'')"

definition chain_http :: http where
  "chain_http url =
     (let pkg = take (length url - 27) (drop 22 url) in
      if url = api_url pkg \<and> pkg = chain_name (length pkg) \<and> 1 \<le> length pkg
         \<and> length pkg \<le> 1200
      then registry_entry ''1.0'' [if length pkg < 1200 then pkg @ ''x'' else ''x'']
      else Reply \<lparr>status_code = 404, json_body = None, page = []\<rparr>)"

text \<open>Two worlds for the examples: every page is blank; the registry knows one package.\<close>

definition blank_http :: http where
  "blank_http url = Reply \<lparr>status_code = 200, json_body = None, page = []\<rparr>"

definition demo_payload :: json where
  "demo_payload =
     JObj [(''info'', JObj [(''version'', JStr ''2.0''), (''author'', JStr ''A. Author''),
                            (''requires_dist'', JArr [JStr ''idna>=2.5 ; python_version < 3'',
                                                      JStr ''urllib3'']),
                            (''project_urls'', JObj [(''Homepage'', JStr ''https://example.org'')])]),
           (''releases'', JObj [(''1.0'', JArr []), (''2.0'', JArr [])])]"

definition demo_http :: http where
  "demo_http url =
     (if url = api_url ''demo''
      then Reply \<lparr>status_code = 200, json_body = Some demo_payload, page = []\<rparr>
      else Reply \<lparr>status_code = 404, json_body = None, page = []\<rparr>)"

definition demo_record :: api_data where
  "demo_record =
     \<lparr>pr_name = ''demo'', pr_version = JStr ''2.0'', pr_author = JStr ''A. Author'',
      pr_license = JStr ''Not specified'', pr_description = JStr ''No description available'',
      pr_homepage = JStr ''Not available'', pr_documentation = JStr ''Not available'',
      pr_requires_python = JStr ''Not specified'',
      pr_dependencies = [''idna>=2.5'', ''urllib3'']\<rparr>"

text \<open>
  A registry whose record of \<open>demo\<close> has no \<open>info.version\<close>:
  \<open>{"info": {"requires_dist": ["a", "b"]}, "releases": {"1.0": []}}\<close>.
\<close>

definition bare_payload :: json where
  "bare_payload =
     JObj [(''info'', JObj [(''requires_dist'', JArr [JStr ''a'', JStr ''b''])]),
           (''releases'', JObj [(''1.0'', JArr [])])]"

definition bare_http :: http where
  "bare_http url =
     (if url = api_url ''demo''
      then Reply \<lparr>status_code = 200, json_body = Some bare_payload, page = []\<rparr>
      else Reply \<lparr>status_code = 404, json_body = None, page = []\<rparr>)"

section \<open>Properties\<close>

lemma classify_cases:
  "classify s = ''CRITICAL'' \<or> classify s = ''HIGH'' \<or> classify s = ''MEDIUM''
   \<or> classify s = ''LOW''"
  by (simp add: classify_def)

lemma pf_le_trans: "pf_le a b \<Longrightarrow> pf_le b c \<Longrightarrow> pf_le a c"
  by (cases a; cases b; cases c) auto

lemma classify_NaN: "classify NaN = ''LOW'' \<and> \<not> pf_lt NaN (Fin 4)"
  by (simp add: classify_def pf_ge_def)

lemma pf_lt_iff: "a \<noteq> NaN \<Longrightarrow> b \<noteq> NaN \<Longrightarrow> pf_lt a b = (\<not> pf_le b a)"
  by (cases a; cases b) auto

text \<open>
  NaN, which \<open>float\<close> returns for the string \<open>nan\<close>, is not a number: it fails every
  comparison, so it falls through to LOW (\<open>classify_NaN\<close>).

  C1. For every score that is a number (a rational or an infinity, not NaN), the bucket is
  CRITICAL exactly from 9 on, HIGH exactly from 7 to below 9, MEDIUM exactly from 4 to below
  7 and LOW exactly below 4; and the bucket is monotonic: a score that is at least as large
  never gets a bucket of a larger rank (a less severe one).
\<close>

theorem classify_step_function:
  assumes "s \<noteq> NaN"
  shows "(classify s = ''CRITICAL'' \<longleftrightarrow> pf_le (Fin 9) s)
    \<and> (classify s = ''HIGH'' \<longleftrightarrow> pf_le (Fin 7) s \<and> pf_lt s (Fin 9))
    \<and> (classify s = ''MEDIUM'' \<longleftrightarrow> pf_le (Fin 4) s \<and> pf_lt s (Fin 7))
    \<and> (classify s = ''LOW'' \<longleftrightarrow> pf_lt s (Fin 4))
    \<and> (\<forall>t. pf_le s t \<longrightarrow>
          (\<exists>m n. severity_rank (classify s) = Inr m \<and> severity_rank (classify t) = Inr n
             \<and> n \<le> m))"
proof -
  have mono: "\<exists>m n. severity_rank (classify s) = Inr m \<and> severity_rank (classify t) = Inr n
      \<and> n \<le> m" if "pf_le s t" for t
    using that by (cases s; cases t) (auto simp: classify_def pf_ge_def severity_rank_def
        severity_order_def)
  have buckets: "(classify s = ''CRITICAL'' \<longleftrightarrow> pf_le (Fin 9) s)
    \<and> (classify s = ''HIGH'' \<longleftrightarrow> pf_le (Fin 7) s \<and> pf_lt s (Fin 9))
    \<and> (classify s = ''MEDIUM'' \<longleftrightarrow> pf_le (Fin 4) s \<and> pf_lt s (Fin 7))
    \<and> (classify s = ''LOW'' \<longleftrightarrow> pf_lt s (Fin 4))"
    using assms by (cases s) (auto simp: classify_def pf_ge_def)
  from buckets mono show ?thesis by blast
qed

theorem classify_step_function_witness:
  "Fin (17/2) \<noteq> NaN \<and> classify (Fin (17/2)) = ''HIGH'' \<and> pf_le (Fin 7) (Fin (17/2))
   \<and> pf_lt (Fin (17/2)) (Fin 9) \<and> classify (Fin (17/2)) \<noteq> ''CRITICAL''
   \<and> \<not> pf_le (Fin 9) (Fin (17/2))"
  using classify_step_function [of "Fin (17/2)"] by (simp add: classify_def pf_ge_def)

subsection \<open>The score\<close>

lemma contains_sublist: "contains d k = sublist k d"
  by (induction d) (auto simp: sublist_Cons_right)

lemma contains_append_left: "contains a k \<Longrightarrow> contains (a @ b) k"
  by (simp add: contains_sublist sublist_append)

lemma parse_float_9_8: "parse_float ''9.8'' = Some (Fin (49 / 5))"
  by code_simp

lemma lower_cryptography: "lower ''cryptography'' \<in> set security_critical_packages"
  by code_simp

lemma affected_add_plain: "list_all plain_entry entries \<Longrightarrow> affected_add entries s = Inr s"
  by (induction entries) (auto simp: plain_entry_def split: json.splits)

lemma foldl_if_filter:
  "foldl (\<lambda>s k. if P k then f s else s) s xs = foldl (\<lambda>s k. f s) s (filter P xs)"
  by (induction xs arbitrary: s) auto

lemma keyword_add_filter:
  "keyword_add d s = foldl (\<lambda>s k. pf_add s (Fin 2)) s (filter (contains d) critical_keywords)"
  unfolding keyword_add_def by (rule foldl_if_filter)

text \<open>
  C6. A vulnerability whose \<open>database_specific.cvss_score\<close> is the string 9.8 and whose
  summary contains "remote code execution" (in any case), scored for the package
  cryptography, with no other signal (no other critical keyword and none of the three
  vulnerability-type words in the description, no annotated entry in \<open>affected\<close>), has the
  score 9.8 + 2 + 1 = 64/5 = 12.8 and the severity CRITICAL.
\<close>

theorem cvss_rce_cryptography_critical:
  assumes db: "map_of kvs ''database_specific'' = Some (JObj ds)"
    and cvss: "map_of ds ''cvss_score'' = Some (JStr ''9.8'')"
    and summ: "map_of kvs ''summary'' = Some (JStr s)"
    and rce: "contains (lower s) ''remote code execution''"
    and descr: "description_of repr (JObj kvs) = Inr d"
    and only: "filter (contains d) critical_keywords = [''remote code execution'']"
    and kinds: "\<not> list_ex (contains d) [''cryptographic'', ''encryption'', ''authentication'']"
    and aff: "map_of kvs ''affected'' = None
       \<or> (\<exists>entries. map_of kvs ''affected'' = Some (JArr entries) \<and> list_all plain_entry entries)"
  shows "severity_score repr (JObj kvs) ''cryptography'' = Inr (Fin (49 / 5 + 2 + 1))
    \<and> severity_score repr (JObj kvs) ''cryptography'' = Inr (Fin (64 / 5))
    \<and> determine_severity repr (JObj kvs) ''cryptography'' = Inr ''CRITICAL''"
proof -
  have c: "cvss_add (JObj ds) (Fin 0) = Inr (Fin (49 / 5))"
    using cvss by (simp add: cvss_add_def sbind_def parse_float_9_8)
  have k: "keyword_add d (Fin (49 / 5)) = Fin (59 / 5)"
    by (simp add: keyword_add_filter only)
  have score: "severity_score repr (JObj kvs) ''cryptography'' = Inr (Fin (64 / 5))"
    using db kinds lower_cryptography aff
    by (auto simp: severity_score_def sbind_def c descr k Let_def affected_add_plain)
  then show ?thesis by (simp add: determine_severity_def sbind_def classify_def pf_ge_def)
qed

theorem cvss_rce_cryptography_critical_witness:
  "map_of example_rce ''summary'' = Some (JStr ''Remote Code Execution in x'')
   \<and> contains (lower ''Remote Code Execution in x'') ''remote code execution''
   \<and> description_of (\<lambda>_. []) (JObj example_rce) = Inr ''remote code execution in x''
   \<and> severity_score (\<lambda>_. []) (JObj example_rce) ''cryptography'' = Inr (Fin (64 / 5))
   \<and> determine_severity (\<lambda>_. []) (JObj example_rce) ''cryptography'' = Inr ''CRITICAL''"
proof -
  have db: "map_of example_rce ''database_specific'' = Some (JObj [(''cvss_score'', JStr ''9.8'')])"
    by (simp add: example_rce_def)
  have cvss: "map_of [(''cvss_score'', JStr ''9.8'')] ''cvss_score'' = Some (JStr ''9.8'')"
    by simp
  have summ: "map_of example_rce ''summary'' = Some (JStr ''Remote Code Execution in x'')"
    by (simp add: example_rce_def)
  have rce: "contains (lower ''Remote Code Execution in x'') ''remote code execution''"
    by code_simp
  have descr: "description_of (\<lambda>_. []) (JObj example_rce) = Inr ''remote code execution in x''"
    by code_simp
  have only: "filter (contains ''remote code execution in x'') critical_keywords
      = [''remote code execution'']"
    by code_simp
  have kinds: "\<not> list_ex (contains ''remote code execution in x'')
      [''cryptographic'', ''encryption'', ''authentication'']"
    by code_simp
  have aff: "map_of example_rce ''affected'' = None
       \<or> (\<exists>entries. map_of example_rce ''affected'' = Some (JArr entries)
            \<and> list_all plain_entry entries)"
    by (simp add: example_rce_def plain_entry_def)
  from cvss_rce_cryptography_critical [OF db cvss summ rce descr only kinds aff] summ rce descr
  show ?thesis by simp
qed

subsection \<open>The report\<close>

lemma counts_incr_keys:
  "counts_incr k cs = Inr cs' \<Longrightarrow> map fst cs' = map fst cs"
  by (induction k cs arbitrary: cs' rule: counts_incr.induct) (auto split: if_splits sum.splits)

lemma counts_incr_sum:
  "counts_incr k cs = Inr cs' \<Longrightarrow> sum_list (map snd cs') = Suc (sum_list (map snd cs))"
  by (induction k cs arbitrary: cs' rule: counts_incr.induct) (auto split: if_splits sum.splits)

lemma process_loop_inv:
  "process_loop repr pkg vs r = Inr r' \<Longrightarrow>
     total_vulnerabilities r' = total_vulnerabilities r
   \<and> map fst (severity_counts r') = map fst (severity_counts r)
   \<and> sum_list (map snd (severity_counts r')) = sum_list (map snd (severity_counts r)) + length vs
   \<and> (\<exists>infos. vulnerabilities r' = vulnerabilities r @ infos \<and> list_all2 (recorded repr pkg) vs infos)"
proof (induction vs arbitrary: r)
  case Nil
  then show ?case by simp
next
  case (Cons v vs)
  from Cons.prems obtain sev counts info where
    sev: "determine_severity repr v pkg = Inr sev"
    and counts: "counts_incr sev (severity_counts r) = Inr counts"
    and info: "vuln_info_of v sev = Inr info"
    and rest: "process_loop repr pkg vs
       (r\<lparr>severity_counts := counts, vulnerabilities := vulnerabilities r @ [info]\<rparr>) = Inr r'"
    by (auto split: sum.splits)
  from Cons.IH [OF rest] obtain infos where
    t: "total_vulnerabilities r' = total_vulnerabilities r"
    and k: "map fst (severity_counts r') = map fst counts"
    and s: "sum_list (map snd (severity_counts r')) = sum_list (map snd counts) + length vs"
    and v: "vulnerabilities r' = (vulnerabilities r @ [info]) @ infos"
    and a: "list_all2 (recorded repr pkg) vs infos"
    by auto
  have "recorded repr pkg v info" using sev info by (auto simp: recorded_def)
  with a have "list_all2 (recorded repr pkg) (v # vs) (info # infos)" by simp
  moreover have "vulnerabilities r' = vulnerabilities r @ (info # infos)" using v by simp
  ultimately show ?case
    using t k s counts_incr_keys [OF counts] counts_incr_sum [OF counts] by auto
qed

lemma mapM_Inr:
  "mapM f xs = Inr ys \<Longrightarrow> length ys = length xs \<and> (\<forall>p \<in> set (zip ys xs). f (snd p) = Inr (fst p))"
  by (induction xs arbitrary: ys) (auto split: sum.splits)

lemma severity_rank_inj:
  "severity_rank s = Inr k \<Longrightarrow> severity_rank t = Inr k \<Longrightarrow> s = t"
  by (auto simp: severity_rank_def severity_order_def split: if_splits)

lemma sort_by_severity_Inr:
  assumes "sort_by_severity xs = Inr ys"
  shows "\<exists>ranks. map (\<lambda>x. severity_rank (severity x)) ys = map Inr ranks \<and> sorted ranks"
    and "filter (\<lambda>x. severity x = s) ys = filter (\<lambda>x. severity x = s) xs"
    and "mset ys = mset xs"
proof -
  from assms obtain ks where ks: "mapM (\<lambda>x. severity_rank (severity x)) xs = Inr ks"
    and ys: "ys = map snd (sort_key fst (zip ks xs))"
    by (auto simp: sort_by_severity_def sbind_def split: sum.splits)
  define zs where "zs = zip ks xs"
  from mapM_Inr [OF ks] have len: "length ks = length xs"
    and key: "\<forall>p \<in> set zs. severity_rank (severity (snd p)) = Inr (fst p)"
    by (auto simp: zs_def)
  have xs: "xs = map snd zs" using len by (simp add: zs_def)
  have key': "\<forall>p \<in> set (sort_key fst zs). severity_rank (severity (snd p)) = Inr (fst p)"
    using key by simp
  have "map (\<lambda>x. severity_rank (severity x)) ys = map Inr (map fst (sort_key fst zs))"
    using key' by (simp add: ys zs_def [symmetric])
  moreover have "sorted (map fst (sort_key fst zs))" by simp
  ultimately show "\<exists>ranks. map (\<lambda>x. severity_rank (severity x)) ys = map Inr ranks \<and> sorted ranks"
    by blast
  have same: "filter (\<lambda>p. severity (snd p) = s) l = filter (\<lambda>p. severity_rank s = Inr (fst p)) l"
    if "\<forall>p \<in> set l. severity_rank (severity (snd p)) = Inr (fst p)" for l
    using that by (intro filter_cong) (auto dest: severity_rank_inj)
  have bykey: "filter (\<lambda>p. severity_rank s = Inr (fst p)) (sort_key fst zs)
      = filter (\<lambda>p. severity_rank s = Inr (fst p)) zs"
  proof (cases "severity_rank s")
    case (Inl e)
    then show ?thesis by simp
  next
    case (Inr k)
    have "filter (\<lambda>p. fst p = k) (sort_key fst zs) = filter (\<lambda>p. fst p = k) zs"
      by (rule sort_key_stable)
    moreover have "(\<lambda>p::nat \<times> vuln_info. severity_rank s = Inr (fst p)) = (\<lambda>p. fst p = k)"
      using Inr by auto
    ultimately show ?thesis by simp
  qed
  have "filter (\<lambda>x. severity x = s) ys = map snd (filter (\<lambda>p. severity (snd p) = s) (sort_key fst zs))"
    by (simp add: ys zs_def [symmetric] filter_map comp_def)
  also have "\<dots> = map snd (filter (\<lambda>p. severity (snd p) = s) zs)"
    by (simp add: same [OF key] same [OF key'] bykey)
  also have "\<dots> = filter (\<lambda>x. severity x = s) xs"
    by (simp add: xs filter_map comp_def)
  finally show "filter (\<lambda>x. severity x = s) ys = filter (\<lambda>x. severity x = s) xs" .
  have "mset ys = image_mset snd (mset (sort_key fst zs))" by (simp add: ys zs_def [symmetric])
  also have "\<dots> = mset xs" by (simp add: xs)
  finally show "mset ys = mset xs" .
qed

lemma example_report_eval:
  "process_vulnerabilities (\<lambda>_. []) example_vulns ''cryptography'' None = Inr example_report"
  by code_simp

text \<open>
  C2. In every report that \<open>_process_vulnerabilities\<close> returns, the ranks of the severities
  (CRITICAL 0, HIGH 1, MEDIUM 2, LOW 3) never decrease along the list, the list is a
  rearrangement of the records of the input in their order \<open>infos\<close>, and the entries of any
  one severity stand in the order of the input.
\<close>

theorem process_vulnerabilities_sorted_stable:
  assumes "process_vulnerabilities repr vulns package_name package_version = Inr r"
  shows "\<exists>ranks infos.
      map (\<lambda>x. severity_rank (severity x)) (vulnerabilities r) = map Inr ranks \<and> sorted ranks
    \<and> list_all2 (recorded repr package_name) vulns infos
    \<and> mset (vulnerabilities r) = mset infos
    \<and> (\<forall>s. filter (\<lambda>x. severity x = s) (vulnerabilities r) = filter (\<lambda>x. severity x = s) infos)"
proof -
  from assms obtain r1 sorted_list where
    loop: "process_loop repr package_name vulns
       \<lparr>total_vulnerabilities = length vulns,
        severity_counts = [(''CRITICAL'', 0), (''HIGH'', 0), (''MEDIUM'', 0), (''LOW'', 0)],
        vulnerabilities = []\<rparr> = Inr r1"
    and srt: "sort_by_severity (vulnerabilities r1) = Inr sorted_list"
    and r: "r = r1\<lparr>vulnerabilities := sorted_list\<rparr>"
    by (auto simp: process_vulnerabilities_def sbind_def split: sum.splits)
  from process_loop_inv [OF loop] have infos: "list_all2 (recorded repr package_name) vulns (vulnerabilities r1)"
    by auto
  from sort_by_severity_Inr [OF srt] infos r show ?thesis by auto
qed

theorem process_vulnerabilities_sorted_stable_witness:
  "process_vulnerabilities (\<lambda>_. []) example_vulns ''cryptography'' None = Inr example_report
   \<and> (\<exists>ranks infos.
      map (\<lambda>x. severity_rank (severity x)) (vulnerabilities example_report) = map Inr ranks
    \<and> sorted ranks
    \<and> list_all2 (recorded (\<lambda>_. []) ''cryptography'') example_vulns infos
    \<and> mset (vulnerabilities example_report) = mset infos
    \<and> (\<forall>s. filter (\<lambda>x. severity x = s) (vulnerabilities example_report)
           = filter (\<lambda>x. severity x = s) infos))"
  using process_vulnerabilities_sorted_stable [OF example_report_eval] example_report_eval
  by blast

text \<open>
  C3. In every report that \<open>_process_vulnerabilities\<close> returns, the keys of
  \<open>severity_counts\<close> are exactly CRITICAL, HIGH, MEDIUM and LOW (each once), the counts sum
  to \<open>total_vulnerabilities\<close>, and that is the length of the input.
\<close>

theorem process_vulnerabilities_counts:
  assumes "process_vulnerabilities repr vulns package_name package_version = Inr r"
  shows "map fst (severity_counts r) = [''CRITICAL'', ''HIGH'', ''MEDIUM'', ''LOW'']
    \<and> sum_list (map snd (severity_counts r)) = total_vulnerabilities r
    \<and> total_vulnerabilities r = length vulns"
proof -
  from assms obtain r1 sorted_list where
    loop: "process_loop repr package_name vulns
       \<lparr>total_vulnerabilities = length vulns,
        severity_counts = [(''CRITICAL'', 0), (''HIGH'', 0), (''MEDIUM'', 0), (''LOW'', 0)],
        vulnerabilities = []\<rparr> = Inr r1"
    and r: "r = r1\<lparr>vulnerabilities := sorted_list\<rparr>"
    by (auto simp: process_vulnerabilities_def sbind_def split: sum.splits)
  from process_loop_inv [OF loop] r show ?thesis by auto
qed

theorem process_vulnerabilities_counts_witness:
  "process_vulnerabilities (\<lambda>_. []) example_vulns ''cryptography'' None = Inr example_report
   \<and> map fst (severity_counts example_report) = [''CRITICAL'', ''HIGH'', ''MEDIUM'', ''LOW'']
   \<and> sum_list (map snd (severity_counts example_report)) = total_vulnerabilities example_report
   \<and> total_vulnerabilities example_report = length example_vulns"
  using process_vulnerabilities_counts [OF example_report_eval] example_report_eval
  by blast

subsection \<open>The metadata fetcher\<close>

lemma py_get_key_obj: "py_get_key releases k d = Inr x \<Longrightarrow> \<exists>rk. releases = JObj rk"
  by (cases releases) auto

lemma extract_dependencies_version:
  assumes "extract_dependencies data None = Inr deps"
  shows "extract_dependencies data version = Inr deps"
proof (cases "given version")
  case None
  then show ?thesis using assms by (simp add: extract_dependencies_def given_def)
next
  case (Some v)
  from assms obtain info latest releases x where
    i: "py_item data ''info'' = Inr info" and la: "py_item info ''version'' = Inr latest"
    and re: "py_item data ''releases'' = Inr releases"
    and g: "py_get_key releases latest (JArr []) = Inr x"
    and rl: "requirement_list data = Inr deps"
    by (auto simp: extract_dependencies_def sbind_def given_def split: sum.splits)
  from g obtain rk where rk: "releases = JObj rk" by (auto dest: py_get_key_obj)
  from re obtain kvs where d: "data = JObj kvs" and m: "map_of kvs ''releases'' = Some (JObj rk)"
    by (cases data) (auto simp: rk split: option.splits)
  show ?thesis
  proof (cases "v \<in> set (map fst rk)")
    case True
    then obtain y where "map_of rk v = Some y"
      by (metis map_of_eq_None_iff not_Some_eq set_map)
    with True rl show ?thesis
      by (simp add: extract_dependencies_def sbind_def Some d m)
  next
    case False
    then show ?thesis
      using i la re g rl
      by (simp add: extract_dependencies_def sbind_def Some d m rk)
  qed
qed

lemma api_record_version:
  assumes "api_record data package_name None = Inr r0"
  shows "api_record data package_name version
    = Inr (r0\<lparr>pr_version := (case given version of Some v \<Rightarrow> JStr v | None \<Rightarrow> pr_version r0)\<rparr>)"
proof -
  from assms obtain deps where "extract_dependencies data None = Inr deps"
    by (auto simp: api_record_def sbind_def split: sum.splits)
  from extract_dependencies_version [OF this] have "extract_dependencies data version = Inr deps" .
  with assms \<open>extract_dependencies data None = Inr deps\<close> show ?thesis
    by (auto simp: api_record_def sbind_def given_def split: sum.splits option.splits)
qed

lemma concat_mapM_dependency_of:
  "concat_mapM dependency_of (map JStr reqs)
     = Inr (map (\<lambda>q. strip (takeWhile (\<lambda>c. c \<noteq> CHR '';'') q)) (filter (\<lambda>q. q \<noteq> []) reqs))"
  by (induction reqs) (simp_all add: dependency_of_def)

lemma requirement_list_payload:
  assumes "map_of kvs ''info'' = Some (JObj info)"
    and "map_of info ''requires_dist'' = Some (JArr (map JStr reqs))
      \<or> map_of info ''requires_dist'' \<in> {None, Some JNull} \<and> reqs = []"
  shows "requirement_list (JObj kvs)
     = Inr (map (\<lambda>q. strip (takeWhile (\<lambda>c. c \<noteq> CHR '';'') q)) (filter (\<lambda>q. q \<noteq> []) reqs))"
  using assms
  by (auto simp: requirement_list_def sbind_def concat_mapM_dependency_of)

lemma api_record_payload:
  assumes i: "map_of kvs ''info'' = Some (JObj info)"
    and r: "map_of kvs ''releases'' = Some (JObj rel)"
    and v: "map_of info ''version'' = Some (JStr latest)"
    and q: "map_of info ''requires_dist'' = Some (JArr (map JStr reqs))
      \<or> map_of info ''requires_dist'' \<in> {None, Some JNull} \<and> reqs = []"
  shows "\<exists>r0. api_record (JObj kvs) package_name None = Inr r0
     \<and> pr_name r0 = package_name \<and> pr_version r0 = JStr latest
     \<and> pr_dependencies r0
         = map (\<lambda>q. strip (takeWhile (\<lambda>c. c \<noteq> CHR '';'') q)) (filter (\<lambda>q. q \<noteq> []) reqs)"
proof -
  have "extract_dependencies (JObj kvs) None
      = Inr (map (\<lambda>q. strip (takeWhile (\<lambda>c. c \<noteq> CHR '';'') q)) (filter (\<lambda>q. q \<noteq> []) reqs))"
    using i r v requirement_list_payload [OF i q]
    by (simp add: extract_dependencies_def given_def sbind_def)
  then show ?thesis
    using i v by (simp add: api_record_def given_def sbind_def)
qed

text \<open>
  C10, amended. For every package name and version argument, the request of
  \<open>_fetch_api_data\<close> is the one to the unversioned endpoint. Whenever the call with no
  version returns a record, the call with the version returns the same record, dependencies
  included, but for its version field. On a payload of the registry's shape (\<open>info\<close> and
  \<open>releases\<close> are objects, \<open>info.version\<close> is a string, \<open>info.requires_dist\<close> is a
  list of strings, null or absent) the call returns for every version argument, and its
  dependency list is made of \<open>info.requires_dist\<close>, the list the latest version declares,
  whatever \<open>releases\<close> holds: the entries that are not empty, each cut at its first
  semicolon and stripped. The version is appended to the URL of the scraped page.
\<close>

theorem fetch_api_data_version_independent:
  "fst (fetch_api_data http package_name version) = [api_url package_name]
   \<and> (\<forall>r0. snd (fetch_api_data http package_name None) = Inr r0 \<longrightarrow>
         snd (fetch_api_data http package_name version)
           = Inr (r0\<lparr>pr_version := (case given version of Some v \<Rightarrow> JStr v | None \<Rightarrow> pr_version r0)\<rparr>))
   \<and> (\<forall>response kvs info rel latest reqs.
         http (api_url package_name) = Reply response
         \<and> \<not> (400 \<le> status_code response \<and> status_code response < 600)
         \<and> json_body response = Some (JObj kvs)
         \<and> map_of kvs ''info'' = Some (JObj info) \<and> map_of kvs ''releases'' = Some (JObj rel)
         \<and> map_of info ''version'' = Some (JStr latest)
         \<and> (map_of info ''requires_dist'' = Some (JArr (map JStr reqs))
              \<or> map_of info ''requires_dist'' \<in> {None, Some JNull} \<and> reqs = [])
         \<longrightarrow> (\<exists>r. snd (fetch_api_data http package_name version) = Inr r
                \<and> pr_name r = package_name
                \<and> pr_version r = (case given version of Some v \<Rightarrow> JStr v | None \<Rightarrow> JStr latest)
                \<and> pr_dependencies r
                    = map (\<lambda>q. strip (takeWhile (\<lambda>c. c \<noteq> CHR '';'') q))
                        (filter (\<lambda>q. q \<noteq> []) reqs)))
   \<and> page_url package_name version
       = page_url package_name None @ (case given version of Some v \<Rightarrow> ''/'' @ v | None \<Rightarrow> [])"
proof -
  have 1: "fst (fetch_api_data http package_name version) = [api_url package_name]"
    by (simp add: fetch_api_data_def iobind_def http_get_def split: reply.splits)
  have 2: "snd (fetch_api_data http package_name version)
           = Inr (r0\<lparr>pr_version := (case given version of Some v \<Rightarrow> JStr v | None \<Rightarrow> pr_version r0)\<rparr>)"
    if "snd (fetch_api_data http package_name None) = Inr r0" for r0
    using that
    by (auto simp: fetch_api_data_def iobind_def http_get_def sbind_def api_record_version
        split: reply.splits sum.splits)
  have 3: "\<exists>r. snd (fetch_api_data http package_name version) = Inr r
        \<and> pr_name r = package_name
        \<and> pr_version r = (case given version of Some v \<Rightarrow> JStr v | None \<Rightarrow> JStr latest)
        \<and> pr_dependencies r
            = map (\<lambda>q. strip (takeWhile (\<lambda>c. c \<noteq> CHR '';'') q)) (filter (\<lambda>q. q \<noteq> []) reqs)"
    if h: "http (api_url package_name) = Reply response"
      and st: "\<not> (400 \<le> status_code response \<and> status_code response < 600)"
      and j: "json_body response = Some (JObj kvs)"
      and i: "map_of kvs ''info'' = Some (JObj info)"
      and r: "map_of kvs ''releases'' = Some (JObj rel)"
      and v: "map_of info ''version'' = Some (JStr latest)"
      and q: "map_of info ''requires_dist'' = Some (JArr (map JStr reqs))
        \<or> map_of info ''requires_dist'' \<in> {None, Some JNull} \<and> reqs = []"
    for response kvs info rel latest reqs
  proof -
    from api_record_payload [OF i r v q, of package_name] obtain r0 where
      r0: "api_record (JObj kvs) package_name None = Inr r0" and n: "pr_name r0 = package_name"
      and ve: "pr_version r0 = JStr latest"
      and de: "pr_dependencies r0
        = map (\<lambda>q. strip (takeWhile (\<lambda>c. c \<noteq> CHR '';'') q)) (filter (\<lambda>q. q \<noteq> []) reqs)"
      by blast
    have "snd (fetch_api_data http package_name version)
        = api_record (JObj kvs) package_name version"
      using h st j
      by (auto simp: fetch_api_data_def iobind_def http_get_def sbind_def raise_for_status_def
          response_json_def)
    with api_record_version [OF r0, of version] n ve de show ?thesis
      by (cases "given version") simp_all
  qed
  have 4: "page_url package_name version
       = page_url package_name None @ (case given version of Some v \<Rightarrow> ''/'' @ v | None \<Rightarrow> [])"
    by (simp add: page_url_def given_def)
  from 1 2 3 4 show ?thesis by blast
qed

theorem fetch_api_data_version_independent_witness:
  "fst (fetch_api_data demo_http ''demo'' (Some ''1.0'')) = [''https://pypi.org/pypi/demo/json'']
   \<and> snd (fetch_api_data demo_http ''demo'' None) = Inr demo_record
   \<and> snd (fetch_api_data demo_http ''demo'' (Some ''1.0''))
       = Inr (demo_record\<lparr>pr_version := JStr ''1.0''\<rparr>)
   \<and> pr_dependencies demo_record
       = map (\<lambda>q. strip (takeWhile (\<lambda>c. c \<noteq> CHR '';'') q))
           (filter (\<lambda>q. q \<noteq> []) [''idna>=2.5 ; python_version < 3'', ''urllib3''])
   \<and> pr_dependencies demo_record = [''idna>=2.5'', ''urllib3'']
   \<and> page_url ''demo'' (Some ''1.0'') = ''https://pypi.org/project/demo/1.0''"
proof -
  let ?info = "[(''version'', JStr ''2.0''), (''author'', JStr ''A. Author''),
      (''requires_dist'', JArr [JStr ''idna>=2.5 ; python_version < 3'', JStr ''urllib3'']),
      (''project_urls'', JObj [(''Homepage'', JStr ''https://example.org'')])]"
  let ?rel = "[(''1.0'', JArr []), (''2.0'', JArr [])]"
  let ?kvs = "[(''info'', JObj ?info), (''releases'', JObj ?rel)]"
  let ?response = "\<lparr>status_code = 200, json_body = Some demo_payload, page = []\<rparr>"
  have h: "snd (fetch_api_data demo_http ''demo'' None) = Inr demo_record"
    by code_simp
  have u: "api_url ''demo'' = ''https://pypi.org/pypi/demo/json''"
    by (simp add: api_url_def)
  have p: "page_url ''demo'' None = ''https://pypi.org/project/demo''"
    by (simp add: page_url_def given_def)
  have shape: "demo_http (api_url ''demo'') = Reply ?response
      \<and> \<not> (400 \<le> status_code ?response \<and> status_code ?response < 600)
      \<and> json_body ?response = Some (JObj ?kvs)
      \<and> map_of ?kvs ''info'' = Some (JObj ?info) \<and> map_of ?kvs ''releases'' = Some (JObj ?rel)
      \<and> map_of ?info ''version'' = Some (JStr ''2.0'')
      \<and> (map_of ?info ''requires_dist''
            = Some (JArr (map JStr [''idna>=2.5 ; python_version < 3'', ''urllib3'']))
          \<or> map_of ?info ''requires_dist'' \<in> {None, Some JNull}
            \<and> [''idna>=2.5 ; python_version < 3'', ''urllib3''] = [])"
    by (simp add: demo_http_def demo_payload_def)
  note t = fetch_api_data_version_independent [of demo_http "''demo''" "Some ''1.0''"]
  from t h have v: "snd (fetch_api_data demo_http ''demo'' (Some ''1.0''))
      = Inr (demo_record\<lparr>pr_version := JStr ''1.0''\<rparr>)"
    by (simp add: given_def)
  from t shape have "\<exists>r. snd (fetch_api_data demo_http ''demo'' (Some ''1.0'')) = Inr r
      \<and> pr_dependencies r
          = map (\<lambda>q. strip (takeWhile (\<lambda>c. c \<noteq> CHR '';'') q))
              (filter (\<lambda>q. q \<noteq> []) [''idna>=2.5 ; python_version < 3'', ''urllib3''])"
    by blast
  with v have d: "pr_dependencies demo_record
      = map (\<lambda>q. strip (takeWhile (\<lambda>c. c \<noteq> CHR '';'') q))
          (filter (\<lambda>q. q \<noteq> []) [''idna>=2.5 ; python_version < 3'', ''urllib3''])"
    by auto
  have d': "pr_dependencies demo_record = [''idna>=2.5'', ''urllib3'']"
    by (simp add: demo_record_def)
  from t h u p v d d' show ?thesis by (simp add: given_def)
qed

text \<open>
  C10 as it was stated, with the same dependency list for every version argument as for
  none, fails where the record has no \<open>info.version\<close>: the call with no version raises
  KeyError at line 39 of the source, and the call with a version of \<open>releases\<close> returns a
  record with the dependencies \<open>a\<close> and \<open>b\<close>.
\<close>

theorem version_argument_changes_outcome:
  "snd (fetch_api_data bare_http ''demo'' None) = Inl KeyError
   \<and> snd (fetch_api_data bare_http ''demo'' (Some ''1.0''))
       = Inr \<lparr>pr_name = ''demo'', pr_version = JStr ''1.0'', pr_author = JStr ''Unknown'',
              pr_license = JStr ''Not specified'',
              pr_description = JStr ''No description available'',
              pr_homepage = JStr ''Not available'', pr_documentation = JStr ''Not available'',
              pr_requires_python = JStr ''Not specified'', pr_dependencies = [''a'', ''b'']\<rparr>"
  by code_simp

lemma soup_find_None: "soup_find P nodes = None \<longleftrightarrow> soup_find_all P nodes = []"
  by (simp add: soup_find_def split: list.splits)

text \<open>
  C5, amended. When the project page comes back with a success status, \<open>_scrape_pypi_page\<close>
  returns a record whatever the markup; a field whose markup is absent is the empty list
  (releases, maintainers) or the empty mapping (project stats), and the installation
  snippet is a fallback text that starts with "pip install", not the empty string.
\<close>

theorem scrape_pypi_page_degrades:
  assumes "http (page_url package_name version) = Reply response"
    and "\<not> (400 \<le> status_code response \<and> status_code response < 600)"
  shows "\<exists>w. scrape_pypi_page http package_name version
          = ([page_url package_name version], Inr w)
     \<and> (soup_find (tag_with_class ''span'' ''package-header__pip-instructions'') (page response) = None
          \<longrightarrow> installation_guide w \<noteq> [] \<and> prefix ''pip install '' (installation_guide w))
     \<and> (soup_find_all (tag_with_class ''a'' ''release__card'') (page response) = []
          \<longrightarrow> latest_releases w = [])
     \<and> (soup_find (tag_with_class ''div'' ''package-header__stats'') (page response) = None
          \<longrightarrow> project_stats w = [])
     \<and> (soup_find (tag_with_class ''div'' ''maintainers'') (page response) = None
          \<longrightarrow> maintainers (community_info w) = [])"
  using assms
  by (simp add: scrape_pypi_page_def iobind_def http_get_def sbind_def raise_for_status_def
      extract_installation_guide_def extract_latest_releases_def extract_project_stats_def
      extract_community_info_def)

theorem scrape_pypi_page_degrades_witness:
  "blank_http (page_url ''demo'' None) = Reply \<lparr>status_code = 200, json_body = None, page = []\<rparr>
   \<and> (\<exists>w. scrape_pypi_page blank_http ''demo'' None = ([page_url ''demo'' None], Inr w)
        \<and> installation_guide w \<noteq> [] \<and> prefix ''pip install '' (installation_guide w)
        \<and> latest_releases w = [] \<and> project_stats w = []
        \<and> maintainers (community_info w) = [])"
proof -
  have h: "blank_http (page_url ''demo'' None)
      = Reply \<lparr>status_code = 200, json_body = None, page = []\<rparr>"
    by (simp add: blank_http_def)
  have s: "\<not> (400 \<le> status_code \<lparr>status_code = 200, json_body = None, page = []\<rparr>
      \<and> status_code \<lparr>status_code = 200, json_body = None, page = []\<rparr> < 600)"
    by simp
  from scrape_pypi_page_degrades [of blank_http "''demo''" None, OF h s] h show ?thesis
    by (simp add: soup_find_def soup_find_all_def)
qed

text \<open>
  The claim C5 as it was stated fails on a page with no markup at all: the installation
  snippet is not the empty string.
\<close>

theorem blank_page_installation_guide:
  "snd (scrape_pypi_page blank_http ''demo'' None)
     = Inr \<lparr>installation_guide = ''pip install {package_name}'', latest_releases = [],
            project_stats = [], community_info = \<lparr>maintainers = []\<rparr>\<rparr>
   \<and> ''pip install {package_name}'' \<noteq> []"
  by code_simp

subsection \<open>The dependency graph\<close>

lemma node_names_append [simp]: "node_names (a @ b) = node_names a @ node_names b"
  by (simp add: node_names_def)

lemma node_names_Node [simp]: "node_names [Node p l a] = [p]"
  by (simp add: node_names_def)

lemma node_names_Edge [simp]: "node_names [Edge p n] = []"
  by (simp add: node_names_def)

lemma step_visited: "step http B M package_name st st' \<Longrightarrow> visited st \<subseteq> visited st'"
  by (induction rule: step.induct) auto

lemma step_wf: "step http B M package_name st st' \<Longrightarrow> wf_state st \<Longrightarrow> wf_state st'"
  by (induction rule: step.induct) (auto simp: wf_state_def)

lemma step_expansions:
  "step http B M package_name st st' \<Longrightarrow> set (expansions st) \<subseteq> set (expansions st')"
  by (induction rule: step.induct) auto

lemma steps_visited: "(step http B M package_name)\<^sup>*\<^sup>* st st' \<Longrightarrow> visited st \<subseteq> visited st'"
  by (induction rule: rtranclp_induct) (auto dest: step_visited)

lemma steps_wf: "(step http B M package_name)\<^sup>*\<^sup>* st st' \<Longrightarrow> wf_state st \<Longrightarrow> wf_state st'"
  by (induction rule: rtranclp_induct) (auto dest: step_wf)

lemma steps_expansions:
  "(step http B M package_name)\<^sup>*\<^sup>* st st' \<Longrightarrow> set (expansions st) \<subseteq> set (expansions st')"
  by (induction rule: rtranclp_induct) (auto dest: step_expansions)

lemma fetch_error_request:
  "graph_fetch_package_info http p = Inl e \<Longrightarrow> is_request_exception e"
  by (auto simp: graph_fetch_package_info_def is_request_exception_def sbind_def
      raise_for_status_def response_json_def split: reply.splits if_splits option.splits)

lemma good_refl: "good http B M package_name st (None, st)"
  by (simp add: good_def)

lemma good_step:
  "step http B M package_name st st1 \<Longrightarrow> overflowed B st1 \<longrightarrow> overflowed B st
   \<Longrightarrow> good http B M package_name st1 res \<Longrightarrow> good http B M package_name st res"
  by (auto simp: good_def)

lemma good_error:
  "(step http B M package_name)\<^sup>*\<^sup>* st st1 \<Longrightarrow> overflowed B st1 \<longrightarrow> overflowed B st
   \<Longrightarrow> \<not> is_request_exception e \<Longrightarrow> p \<in> visited st1
   \<Longrightarrow> \<not> well_formed http p \<Longrightarrow> good http B M package_name st (Some e, st1)"
  by (auto simp: good_def)

lemma good_steps:
  "(step http B M package_name)\<^sup>*\<^sup>* st st1 \<Longrightarrow> overflowed B st1 \<longrightarrow> overflowed B st
   \<Longrightarrow> good http B M package_name st1 res \<Longrightarrow> good http B M package_name st res"
  by (auto simp: good_def)

declare add_dependencies.simps [simp del]

lemma concat_map_Cons_subset: "set (concat (map f rest)) \<subseteq> set (concat (map f (dep # rest)))"
  by auto

lemma dep_names_Cons: "set (dep_names rest) \<subseteq> set (dep_names (dep # rest))"
  unfolding dep_names_def by (rule concat_map_Cons_subset)

lemma dep_names_hd:
  "truthy dep \<Longrightarrow> dep_name_of dep = Inr n \<Longrightarrow> n \<noteq> [] \<Longrightarrow> n \<in> set (dep_names (dep # rest))"
  unfolding dep_names_def by simp

lemma info_field_error:
  "sbind (py_item data ''info'') (\<lambda>info. py_get info k d) = Inl e \<Longrightarrow> \<not> is_request_exception e"
  by (cases data; cases "py_item data ''info''")
    (auto simp: sbind_def is_request_exception_def split: option.splits sum.splits
      elim!: py_get.elims)

lemma py_iter_error: "py_iter v = Inl e \<Longrightarrow> \<not> is_request_exception e"
  by (cases v) (auto simp: is_request_exception_def)

lemma dep_name_of_error: "dep_name_of dep = Inl e \<Longrightarrow> \<not> is_request_exception e"
  by (cases dep) (auto simp: dep_name_of_def is_request_exception_def)

lemma add_dependencies_steps:
  "0 \<le> d \<Longrightarrow> wf_state st \<Longrightarrow> p = package_name \<or> (\<exists>q. Edge q p \<in> set (body st))
     \<Longrightarrow> d = 0 \<or> (\<exists>q. (q, d - 1) \<in> set (expansions st))
     \<Longrightarrow> good http B M package_name st (add_dependencies repr http B M p d st)"
  and dependencies_loop_steps:
  "0 \<le> d \<Longrightarrow> wf_state st \<Longrightarrow> p \<in> visited st
     \<Longrightarrow> set (dep_names deps) \<subseteq> set (declared_names http p)
     \<Longrightarrow> well_formed http p \<longrightarrow> list_all (\<lambda>dep. \<not> truthy dep \<or> isl (dep_name_of dep) = False) deps
     \<Longrightarrow> (p, d) \<in> set (expansions st)
     \<Longrightarrow> good http B M package_name st (dependencies_loop repr http B M p d deps st)"
proof (induction repr http B M p d st and repr http B M p d deps st
    rule: add_dependencies_dependencies_loop.induct)
  case (1 repr http B M p d st)
  note d = \<open>0 \<le> d\<close> and wf = \<open>wf_state st\<close>
    and par = \<open>d = 0 \<or> (\<exists>q. (q, d - 1) \<in> set (expansions st))\<close>
  show ?case
  proof (cases "M \<le> d \<or> p \<in> visited st")
    case True
    then show ?thesis by (simp add: add_dependencies.simps good_refl)
  next
    case False
    define st1 where "st1 = st\<lparr>visited := insert p (visited st),
      expansions := expansions st @ [(p, d)]\<rparr>"
    have in1: "p \<in> visited st1" by (simp add: st1_def)
    have tr1: "(p, d) \<in> set (expansions st1)" by (simp add: st1_def)
    show ?thesis
    proof (cases "B \<le> d")
      case deep: True
      have res: "add_dependencies repr http B M p d st = (Some RecursionError, st1)"
        using False deep by (simp add: add_dependencies.simps st1_def Let_def is_request_exception_def)
      have s1: "step http B M package_name st st1"
        unfolding st1_def using False d "1.prems"(3) par deep by (intro step.too_deep) auto
      have "overflowed B st1" unfolding overflowed_def using tr1 deep by blast
      then show ?thesis
        unfolding res using s1 by (auto simp: good_def is_request_exception_def)
    next
      case room: False
    then have fits: "d < B" by simp
    have ov1: "overflowed B st1 \<longrightarrow> overflowed B st"
      using fits by (auto simp: overflowed_def st1_def)
    note fetch = if_not_P [OF room, of "Inl RecursionError" "graph_fetch_package_info http p"]
    show ?thesis
    proof (cases "graph_fetch_package_info http p")
      case (Inl e)
      have res: "add_dependencies repr http B M p d st
          = (None, st1\<lparr>body := body st1 @ [Node p p [(''fillcolor'', ''lightgray'')]]\<rparr>)"
        using False room Inl fetch_error_request [OF Inl]
        by (simp add: add_dependencies.simps st1_def Let_def)
      have "step http B M package_name st
          (st\<lparr>visited := insert p (visited st), expansions := expansions st @ [(p, d)],
              body := body st @ [Node p p [(''fillcolor'', ''lightgray'')]]\<rparr>)"
        using False d "1.prems"(3) par fits Inl by (intro step.failed) auto
      then have "step http B M package_name st
          (st1\<lparr>body := body st1 @ [Node p p [(''fillcolor'', ''lightgray'')]]\<rparr>)"
        by (simp add: st1_def)
      then show ?thesis unfolding res using ov1 by (auto simp: good_def overflowed_def)
    next
      case (Inr data)
      have s1: "step http B M package_name st st1"
        unfolding st1_def using False d "1.prems"(3) par fits Inr by (intro step.expand) auto
      have wf1: "wf_state st1" using step_wf [OF s1 wf] .
      have fresh: "p \<notin> set (node_names (body st1))"
        using wf False by (auto simp: wf_state_def st1_def)
      show ?thesis
      proof (cases "sbind (py_item data ''info'') (\<lambda>info. py_get info ''requires_dist'' (JArr []))")
        case (Inl e)
        have res: "add_dependencies repr http B M p d st = (Some e, st1)"
          using False room \<open>graph_fetch_package_info http p = Inr data\<close> Inl info_field_error [OF Inl]
          by (simp add: add_dependencies.simps st1_def Let_def)
        have "\<not> well_formed http p"
          using \<open>graph_fetch_package_info http p = Inr data\<close> Inl by (simp add: well_formed_def)
        with s1 ov1 info_field_error [OF Inl] in1 show ?thesis
          unfolding res by (intro good_error) auto
      next
        case rd: (Inr requires_dist)
        show ?thesis
        proof (cases "sbind (py_item data ''info'') (\<lambda>info. py_get info ''version'' (JStr ''unknown''))")
          case (Inl e)
          have res: "add_dependencies repr http B M p d st = (Some e, st1)"
            using False room \<open>graph_fetch_package_info http p = Inr data\<close> rd Inl info_field_error [OF Inl]
            by (simp add: add_dependencies.simps st1_def Let_def)
          have "\<not> well_formed http p"
            using \<open>graph_fetch_package_info http p = Inr data\<close> rd Inl
            by (simp add: well_formed_def)
          with s1 ov1 info_field_error [OF Inl] in1 show ?thesis
            unfolding res by (intro good_error) auto
        next
          case v: (Inr version)
          define st2 where "st2 = st1\<lparr>body := body st1
            @ [Node p (p @ [CHR 0x0A] @ py_str repr version) []]\<rparr>"
          have s2: "step http B M package_name st1 st2"
            unfolding st2_def using in1 fresh \<open>graph_fetch_package_info http p = Inr data\<close>
            by (rule step.node)
          have s12: "(step http B M package_name)\<^sup>*\<^sup>* st st2" using s1 s2 by auto
          have wf2: "wf_state st2" using step_wf [OF s2 wf1] .
          have in2: "p \<in> visited st2" by (simp add: st2_def st1_def)
          have tr2: "(p, d) \<in> set (expansions st2)" using tr1 by (simp add: st2_def)
          have ov2: "overflowed B st2 \<longrightarrow> overflowed B st"
            using ov1 by (simp add: overflowed_def st2_def)
          show ?thesis
          proof (cases "truthy requires_dist")
            case nt: False
            have res: "add_dependencies repr http B M p d st = (None, st2)"
              using False room \<open>graph_fetch_package_info http p = Inr data\<close> rd v nt
              by (simp add: add_dependencies.simps st1_def st2_def Let_def)
            show ?thesis unfolding res using s12 ov2 by (auto simp: good_def)
          next
            case t: True
            show ?thesis
            proof (cases "py_iter requires_dist")
              case (Inl e)
              have res: "add_dependencies repr http B M p d st = (Some e, st2)"
                using False room \<open>graph_fetch_package_info http p = Inr data\<close> rd v t Inl
                  py_iter_error [OF Inl]
                by (simp add: add_dependencies.simps st1_def st2_def Let_def)
              have "\<not> well_formed http p"
                using \<open>graph_fetch_package_info http p = Inr data\<close> rd v t Inl
                by (simp add: well_formed_def)
              with s12 ov2 py_iter_error [OF Inl] in2 show ?thesis
                unfolding res by (intro good_error) auto
            next
              case it: (Inr deps)
              have decl: "set (dep_names deps) \<subseteq> set (declared_names http p)"
                using \<open>graph_fetch_package_info http p = Inr data\<close> rd t it
                by (simp add: declared_names_def)
              have ok: "well_formed http p
                  \<longrightarrow> list_all (\<lambda>dep. \<not> truthy dep \<or> isl (dep_name_of dep) = False) deps"
                using \<open>graph_fetch_package_info http p = Inr data\<close> rd v t it
                by (simp add: well_formed_def)
              have IH: "good http B M package_name st2 (dependencies_loop repr http B M p d deps st2)"
                using "1.IH" [OF False st1_def
                    trans [OF fetch \<open>graph_fetch_package_info http p = Inr data\<close>] rd v
                    st2_def t it d wf2 in2 decl ok tr2] .
              have res: "add_dependencies repr http B M p d st
                  = dependencies_loop repr http B M p d deps st2"
                using False room \<open>graph_fetch_package_info http p = Inr data\<close> rd v t it IH
                by (cases "dependencies_loop repr http B M p d deps st2")
                  (auto simp: add_dependencies.simps st1_def st2_def Let_def good_def
                    split: option.splits)
              show ?thesis unfolding res using s12 ov2 IH by (rule good_steps)
            qed
          qed
        qed
      qed
    qed
    qed
  qed
next
  case (2 repr http B M p d st)
  then show ?case by (simp add: good_refl)
next
  case (3 repr http B M p d dep rest st)
  note d = \<open>0 \<le> d\<close> and wf = \<open>wf_state st\<close> and inv = \<open>p \<in> visited st\<close>
    and tr = \<open>(p, d) \<in> set (expansions st)\<close>
    and decl = \<open>set (dep_names (dep # rest)) \<subseteq> set (declared_names http p)\<close>
  have decl': "set (dep_names rest) \<subseteq> set (declared_names http p)"
    using decl dep_names_Cons by blast
  note ok = \<open>well_formed http p
      \<longrightarrow> list_all (\<lambda>dep. \<not> truthy dep \<or> isl (dep_name_of dep) = False) (dep # rest)\<close>
  then have ok': "well_formed http p
      \<longrightarrow> list_all (\<lambda>dep. \<not> truthy dep \<or> isl (dep_name_of dep) = False) rest"
    by simp
  show ?case
  proof (cases "truthy dep")
    case False
    from "3.IH"(5) [OF False d wf inv decl' ok' tr] False show ?thesis by simp
  next
    case True
    show ?thesis
    proof (cases "dep_name_of dep")
      case (Inl e)
      have "\<not> well_formed http p" using ok True Inl by auto
      then have "good http B M package_name st (Some e, st)"
        using dep_name_of_error [OF Inl] inv by (intro good_error [where p = p]) auto
      then show ?thesis using True Inl by simp
    next
      case (Inr n)
      show ?thesis
      proof (cases "n = []")
        case e: True
        from "3.IH"(4) [OF True Inr _ d wf inv decl' ok' tr] e True Inr show ?thesis by simp
      next
        case ne: False
        define st1 where "st1 = st\<lparr>body := body st @ [Edge p n]\<rparr>"
        have dn: "n \<in> set (declared_names http p)"
          using decl dep_names_hd [OF True Inr ne] by blast
        with inv have s1: "step http B M package_name st st1"
          unfolding st1_def by (rule step.edge)
        have tr1: "(p, d) \<in> set (expansions st1)" using tr by (simp add: st1_def)
        have wf1: "wf_state st1" using step_wf [OF s1 wf] .
        have in1: "p \<in> visited st1" using inv by (simp add: st1_def)
        have ov1: "overflowed B st1 \<longrightarrow> overflowed B st"
          by (simp add: overflowed_def st1_def)
        show ?thesis
        proof (cases "n \<in> visited st1")
          case seen: True
          have "good http B M package_name st1 (dependencies_loop repr http B M p d rest st1)"
            using "3.IH"(3) [OF True Inr ne st1_def _ d wf1 in1 decl' ok' tr1] seen by simp
          then have "good http B M package_name st (dependencies_loop repr http B M p d rest st1)"
            using s1 ov1 by (auto intro: good_step)
          then show ?thesis using True Inr ne seen by (simp add: st1_def Let_def)
        next
          case new: False
          have g1: "good http B M package_name st1 (add_dependencies repr http B M n (d + 1) st1)"
          proof -
            have "0 \<le> d + 1" using d by simp
            moreover have "n = package_name \<or> (\<exists>q. Edge q n \<in> set (body st1))"
              by (auto simp: st1_def)
            moreover have "d + 1 = 0 \<or> (\<exists>q. (q, d + 1 - 1) \<in> set (expansions st1))"
              using tr1 by auto
            ultimately show ?thesis
              using "3.IH"(1) [OF True Inr ne st1_def new] wf1 by blast
          qed
          show ?thesis
          proof (cases "add_dependencies repr http B M n (d + 1) st1")
            case (Pair r st2)
            have s2: "(step http B M package_name)\<^sup>*\<^sup>* st1 st2"
              using g1 Pair by (simp add: good_def)
            show ?thesis
            proof (cases r)
              case (Some e)
              then have "dependencies_loop repr http B M p d (dep # rest) st = (Some e, st2)"
                using True Inr ne new Pair by (simp add: st1_def Let_def)
              moreover have "good http B M package_name st (Some e, st2)"
                using g1 s1 ov1 Pair Some by (auto simp: good_def)
              ultimately show ?thesis by simp
            next
              case None
              have wf2: "wf_state st2" using steps_wf [OF s2 wf1] .
              have in2: "p \<in> visited st2" using steps_visited [OF s2] in1 by auto
              have tr2: "(p, d) \<in> set (expansions st2)" using steps_expansions [OF s2] tr1 by auto
              have "good http B M package_name st2 (dependencies_loop repr http B M p d rest st2)"
                using "3.IH"(2) [OF True Inr ne st1_def new Pair [symmetric] None d wf2 in2
                    decl' ok' tr2] .
              moreover have "overflowed B st2 \<longrightarrow> overflowed B st"
                using g1 ov1 Pair None by (auto simp: good_def)
              ultimately have "good http B M package_name st (dependencies_loop repr http B M p d rest st2)"
                using s1 s2 by (auto simp: good_def)
              moreover have "dependencies_loop repr http B M p d (dep # rest) st
                  = dependencies_loop repr http B M p d rest st2"
                using True Inr ne new Pair None by (simp add: st1_def Let_def)
              ultimately show ?thesis by simp
            qed
          qed
        qed
      qed
    qed
  qed
qed

lemma graph_inv_distinct: "graph_inv http B M st \<Longrightarrow> distinct (map fst (expansions st))"
  and graph_inv_visited: "graph_inv http B M st \<Longrightarrow> visited st = fst ` set (expansions st)"
  and graph_inv_depth:
    "graph_inv http B M st \<Longrightarrow> \<forall>(p, d) \<in> set (expansions st). 0 \<le> d \<and> d < M"
  and graph_inv_parent:
    "graph_inv http B M st \<Longrightarrow> (p, d) \<in> set (expansions st)
      \<Longrightarrow> d = 0 \<or> (\<exists>q. (q, d - 1) \<in> set (expansions st))"
  and graph_inv_nodes:
    "graph_inv http B M st \<Longrightarrow> distinct (node_names (body st)) \<and> set (node_names (body st)) \<subseteq> visited st"
  and graph_inv_edge:
    "graph_inv http B M st \<Longrightarrow> Edge p n \<in> set (body st)
      \<Longrightarrow> p \<in> visited st \<and> n \<in> set (declared_names http p)"
  unfolding graph_inv_def by auto


lemma graph_inv_initial: "graph_inv http B M (initial_state package_name)"
  by (simp add: graph_inv_def initial_state_def node_names_def)

lemma wf_state_initial: "wf_state (initial_state package_name)"
  by (simp add: wf_state_def initial_state_def node_names_def)

lemma step_inv: "step http B M package_name st st' \<Longrightarrow> graph_inv http B M st \<Longrightarrow> graph_inv http B M st'"
proof (induction rule: step.induct)
  case (expand d p st data)
  then show ?case by (auto simp: graph_inv_def)
next
  case (failed d p st e)
  then show ?case by (auto simp: graph_inv_def)
next
  case (too_deep d p st)
  then show ?case by (auto simp: graph_inv_def)
next
  case (node p st data l)
  then show ?case by (auto simp: graph_inv_def)
next
  case (edge p st n)
  then show ?case by (auto simp: graph_inv_def)
qed

lemma steps_inv:
  "(step http B M package_name)\<^sup>*\<^sup>* st st' \<Longrightarrow> graph_inv http B M st \<Longrightarrow> graph_inv http B M st'"
  by (induction rule: rtranclp_induct) (auto dest: step_inv)

lemma step_inside:
  assumes "package_name \<in> S" and "\<forall>p \<in> S. set (declared_names http p) \<subseteq> S"
  shows "step http B M package_name st st' \<Longrightarrow> inside S st \<Longrightarrow> inside S st'"
proof (induction rule: step.induct)
  case (expand d p st data)
  then show ?case using assms by (auto simp: inside_def)
next
  case (failed d p st e)
  then show ?case using assms by (auto simp: inside_def)
next
  case (too_deep d p st)
  then show ?case using assms by (auto simp: inside_def)
next
  case (node p st data l)
  then show ?case by (auto simp: inside_def)
next
  case (edge p st n)
  then show ?case using assms by (auto simp: inside_def)
qed

lemma steps_inside:
  assumes "package_name \<in> S" and "\<forall>p \<in> S. set (declared_names http p) \<subseteq> S"
  shows "(step http B M package_name)\<^sup>*\<^sup>* st st' \<Longrightarrow> inside S st \<Longrightarrow> inside S st'"
  by (induction rule: rtranclp_induct) (auto dest: step_inside [OF assms])

text \<open>
  An expansion at depth \<open>d\<close> has one at every depth below it, on other packages: the
  trace is at least \<open>d + 1\<close> long.
\<close>

lemma trace_levels:
  assumes inv: "graph_inv http B M st" and "(p, d) \<in> set (expansions st)"
  shows "0 \<le> k \<Longrightarrow> k \<le> d \<Longrightarrow> \<exists>q. (q, d - k) \<in> set (expansions st)"
proof (induction k rule: int_ge_induct)
  case base
  then show ?case using assms(2) by auto
next
  case (step k)
  then obtain q where q: "(q, d - k) \<in> set (expansions st)" by auto
  from graph_inv_parent [OF inv q] step.prems have "\<exists>r. (r, d - k - 1) \<in> set (expansions st)"
    by auto
  then show ?case by (simp add: algebra_simps)
qed

lemma trace_depth_length:
  assumes inv: "graph_inv http B M st" and pd: "(p, d) \<in> set (expansions st)"
  shows "d + 1 \<le> int (length (expansions st))"
proof -
  have d0: "0 \<le> d" using graph_inv_depth [OF inv] pd by auto
  have "{0..d} \<subseteq> snd ` set (expansions st)"
  proof
    fix j assume "j \<in> {0..d}"
    then have "0 \<le> d - j" "d - j \<le> d" by auto
    from trace_levels [OF inv pd this] obtain q where "(q, d - (d - j)) \<in> set (expansions st)"
      by blast
    then have "(q, j) \<in> set (expansions st)" by simp
    then show "j \<in> snd ` set (expansions st)" by force
  qed
  then have "card {0..d} \<le> card (snd ` set (expansions st))"
    by (intro card_mono) auto
  also have "\<dots> \<le> card (set (expansions st))" by (intro card_image_le) auto
  also have "\<dots> \<le> length (expansions st)" by (rule card_length)
  finally have "nat (d + 1) \<le> length (expansions st)" by simp
  then show ?thesis using d0 by linarith
qed

lemma create_good:
  "good http B max_depth package_name (initial_state package_name)
     (create_dependency_graph repr http B package_name max_depth)"
  unfolding create_dependency_graph_def
  by (rule add_dependencies_steps) (simp_all add: wf_state_initial)

lemma create_inv:
  "graph_inv http B max_depth (snd (create_dependency_graph repr http B package_name max_depth))"
  using create_good [of http B max_depth package_name repr] graph_inv_initial
  by (auto simp: good_def intro: steps_inv)

lemma cycle_graph_eval:
  "create_dependency_graph (\<lambda>_. []) cycle_http 900 ''a'' 3 = (None, cycle_graph)"
  by code_simp

lemma cycle_graph_eval_deep:
  "create_dependency_graph (\<lambda>_. []) cycle_http 900 ''a'' 5000 = (None, cycle_graph)"
  by code_simp

text \<open>
  C7. In every run of \<open>create_dependency_graph\<close>, whether it returns or raises, the trace
  of expansions names no package twice, every expansion is at a depth from 0 to below
  \<open>max_depth\<close>, and the packages expanded are the visited ones.
\<close>

theorem expansions_distinct_bounded:
  "distinct (map fst (expansions (snd (create_dependency_graph repr http recursion_budget
       package_name max_depth))))
   \<and> (\<forall>(p, d) \<in> set (expansions (snd (create_dependency_graph repr http recursion_budget
          package_name max_depth))).
         0 \<le> d \<and> d < max_depth)
   \<and> visited (snd (create_dependency_graph repr http recursion_budget package_name max_depth))
       = fst ` set (expansions (snd (create_dependency_graph repr http recursion_budget
           package_name max_depth)))"
  using create_inv [of http recursion_budget max_depth repr package_name]
  by (simp add: graph_inv_def)

theorem expansions_distinct_bounded_witness:
  "create_dependency_graph (\<lambda>_. []) cycle_http 900 ''a'' 3 = (None, cycle_graph)
   \<and> expansions cycle_graph = [(''a'', 0), (''b'', 1), (''c'', 2)]
   \<and> distinct (map fst (expansions cycle_graph))
   \<and> list_all (\<lambda>(p, d). 0 \<le> d \<and> d < 3) (expansions cycle_graph)
   \<and> visited cycle_graph = fst ` set (expansions cycle_graph)"
  using expansions_distinct_bounded [of "\<lambda>_. []" cycle_http 900 "''a''" 3] cycle_graph_eval
  by (simp add: cycle_graph_def)

text \<open>
  C8, amended. \<open>add_dependencies\<close> is a total function (its recursion is well founded by
  the depth that is left, whatever the registry says), so \<open>create_dependency_graph\<close> has
  an outcome for every input, cyclic declarations included: a graph, or an exception. When
  the packages that can be reached lie in a finite set \<open>S\<close> (it holds the root and, with a
  package, every name its record declares), what is built stays in \<open>S\<close> for every
  \<open>max_depth\<close>: at most \<open>card S\<close> expansions and as many nodes, each name once, and edges
  between names of \<open>S\<close>. When the records of \<open>S\<close> are well formed, the only exception a
  run can end in is RecursionError, and the run returns its graph, raising nothing, when
  the nest of calls fits the interpreter's stack: \<open>max_depth\<close> is at most the budget of
  nested calls, or \<open>S\<close> has no more packages than the budget.
\<close>

theorem create_dependency_graph_finite:
  assumes "finite S" and "package_name \<in> S" and "\<forall>p \<in> S. set (declared_names http p) \<subseteq> S"
  shows "\<exists>e g. create_dependency_graph repr http recursion_budget package_name max_depth = (e, g)
     \<and> fst ` set (expansions g) \<subseteq> S \<and> length (expansions g) \<le> card S
     \<and> distinct (node_names (body g)) \<and> set (node_names (body g)) \<subseteq> S
     \<and> length (node_names (body g)) \<le> card S
     \<and> (\<forall>p n. Edge p n \<in> set (body g) \<longrightarrow> p \<in> S \<and> n \<in> S)
     \<and> ((\<forall>p \<in> S. well_formed http p) \<longrightarrow> e = None \<or> e = Some RecursionError)
     \<and> ((\<forall>p \<in> S. well_formed http p)
          \<and> (max_depth \<le> recursion_budget \<or> int (card S) \<le> recursion_budget)
         \<longrightarrow> e = None)"
proof -
  obtain e g where eg:
    "create_dependency_graph repr http recursion_budget package_name max_depth = (e, g)"
    by (cases "create_dependency_graph repr http recursion_budget package_name max_depth")
  have inv: "graph_inv http recursion_budget max_depth g"
    using create_inv [of http recursion_budget max_depth repr package_name] eg by simp
  have gd: "good http recursion_budget max_depth package_name (initial_state package_name) (e, g)"
    using create_good [of http recursion_budget max_depth package_name repr] eg by simp
  have w0: "inside S (initial_state package_name)" by (simp add: inside_def initial_state_def)
  have "(step http recursion_budget max_depth package_name)\<^sup>*\<^sup>* (initial_state package_name) g"
    using gd by (simp add: good_def)
  from steps_inside [OF assms(2,3) this w0] have w: "inside S g" .
  have vis: "visited g \<subseteq> S" using w by (simp add: inside_def)
  have names: "fst ` set (expansions g) \<subseteq> S"
    using graph_inv_visited [OF inv] vis by simp
  have lencard: "length (expansions g) = card (visited g)"
    using graph_inv_distinct [OF inv] graph_inv_visited [OF inv]
    by (metis distinct_card length_map set_map)
  have len: "length (expansions g) \<le> card S"
    unfolding lencard using vis assms(1) by (rule card_mono [rotated])
  have nodes: "set (node_names (body g)) \<subseteq> S"
    using graph_inv_nodes [OF inv] vis by auto
  have "length (node_names (body g)) = card (set (node_names (body g)))"
    using graph_inv_nodes [OF inv] by (simp add: distinct_card)
  also have "\<dots> \<le> card S" using nodes assms(1) by (rule card_mono [rotated])
  finally have nlen: "length (node_names (body g)) \<le> card S" .
  have edges: "\<forall>p n. Edge p n \<in> set (body g) \<longrightarrow> p \<in> S \<and> n \<in> S"
    using graph_inv_edge [OF inv] w by (auto simp: inside_def)
  have start: "\<not> overflowed recursion_budget (initial_state package_name)"
    by (simp add: overflowed_def initial_state_def)
  have only: "e = None \<or> e = Some RecursionError" if wf: "\<forall>p \<in> S. well_formed http p"
  proof (cases e)
    case None
    then show ?thesis by simp
  next
    case (Some x)
    with gd have "overflowed recursion_budget g \<or> (\<exists>q \<in> visited g. \<not> well_formed http q)"
      by (simp add: good_def)
    with wf vis have "overflowed recursion_budget g" by blast
    with gd start show ?thesis by (simp add: good_def)
  qed
  have ok: "e = None"
    if wf: "\<forall>p \<in> S. well_formed http p"
      and room: "max_depth \<le> recursion_budget \<or> int (card S) \<le> recursion_budget"
  proof (cases e)
    case None
    then show ?thesis .
  next
    case (Some x)
    with gd have "overflowed recursion_budget g \<or> (\<exists>q \<in> visited g. \<not> well_formed http q)"
      by (simp add: good_def)
    with wf vis have "overflowed recursion_budget g" by blast
    then obtain p d where pd: "(p, d) \<in> set (expansions g)" and deep: "recursion_budget \<le> d"
      by (auto simp: overflowed_def)
    have dM: "d < max_depth" using graph_inv_depth [OF inv] pd by auto
    from trace_depth_length [OF inv pd] len have "d + 1 \<le> int (card S)" by linarith
    with deep dM room show ?thesis by linarith
  qed
  from eg names len graph_inv_nodes [OF inv] nodes nlen edges only ok show ?thesis by simp
qed

lemma cycle_declared:
  "declared_names cycle_http ''a'' = [''b'']"
  "declared_names cycle_http ''b'' = [''a'', ''c'']"
  "declared_names cycle_http ''c'' = []"
  by code_simp+

lemma cycle_well_formed:
  "well_formed cycle_http ''a''" "well_formed cycle_http ''b''" "well_formed cycle_http ''c''"
  by code_simp+

theorem create_dependency_graph_finite_witness:
  "create_dependency_graph (\<lambda>_. []) cycle_http 900 ''a'' 3 = (None, cycle_graph)
   \<and> create_dependency_graph (\<lambda>_. []) cycle_http 900 ''a'' 5000 = (None, cycle_graph)
   \<and> (\<exists>e g. create_dependency_graph (\<lambda>_. []) cycle_http 900 ''a'' 5000 = (e, g)
     \<and> fst ` set (expansions g) \<subseteq> {''a'', ''b'', ''c''}
     \<and> length (expansions g) \<le> card {''a'', ''b'', ''c''}
     \<and> distinct (node_names (body g)) \<and> set (node_names (body g)) \<subseteq> {''a'', ''b'', ''c''}
     \<and> length (node_names (body g)) \<le> card {''a'', ''b'', ''c''}
     \<and> (\<forall>p n. Edge p n \<in> set (body g) \<longrightarrow> p \<in> {''a'', ''b'', ''c''} \<and> n \<in> {''a'', ''b'', ''c''})
     \<and> e = None)"
proof -
  have fin: "finite {''a'', ''b'', ''c''}" by simp
  have root: "''a'' \<in> {''a'', ''b'', ''c''}" by simp
  have closed: "\<forall>p \<in> {''a'', ''b'', ''c''}. set (declared_names cycle_http p) \<subseteq> {''a'', ''b'', ''c''}"
    by (simp add: cycle_declared)
  have wf: "\<forall>p \<in> {''a'', ''b'', ''c''}. well_formed cycle_http p"
    by (simp add: cycle_well_formed)
  have room: "(5000::int) \<le> 900 \<or> int (card {''a'', ''b'', ''c''}) \<le> 900"
    by simp
  from create_dependency_graph_finite [OF fin root closed, of "\<lambda>_. []" 900 5000] wf room
    cycle_graph_eval cycle_graph_eval_deep
  show ?thesis by blast
qed

text \<open>
  C8 as it was stated, with a graph for every finite \<open>max_depth\<close>, fails on a chain that
  is too long for the interpreter. In the registry \<open>chain_http\<close> the package of \<open>n\<close>
  letters requires the package of \<open>n + 1\<close> letters, up to 1200, and the last one requires
  the first: 1200 packages, all with well-formed records, on a cycle. The interpreter nests
  fewer than 1000 calls, so a run with \<open>max_depth\<close> 5000 ends in RecursionError and yields
  no graph.
\<close>

lemma chain_name_simps:
  "takeWhile (\<lambda>c. c \<noteq> CHR '' '') (chain_name n) = chain_name n"
  "takeWhile (\<lambda>c. c \<noteq> CHR '';'') (chain_name n) = chain_name n"
  "strip (chain_name n) = chain_name n"
  by (simp_all add: chain_name_def strip_def is_space_def takeWhile_replicate dropWhile_replicate)

lemma chain_fetch:
  assumes "1 \<le> n" and "n < 1200"
  shows "graph_fetch_package_info chain_http (chain_name n)
    = Inr (JObj [(''info'', JObj [(''version'', JStr ''1.0''),
                                  (''requires_dist'', JArr [JStr (chain_name (Suc n))])])])"
proof -
  have "chain_name n @ ''x'' = chain_name (Suc n)"
    by (simp add: chain_name_def replicate_append_same)
  then show ?thesis
    using assms
    by (simp add: graph_fetch_package_info_def chain_http_def api_url_def Let_def
        registry_entry_def raise_for_status_def response_json_def sbind_def chain_name_def)
qed

lemma chain_overflow:
  assumes "int B < M" and "B < 1200"
  shows "1 \<le> n \<Longrightarrow> n \<le> Suc B \<Longrightarrow> \<forall>k \<ge> n. chain_name k \<notin> visited st
    \<Longrightarrow> fst (add_dependencies repr chain_http (int B) M (chain_name n) (int n - 1) st)
          = Some RecursionError"
proof (induction "Suc B - n" arbitrary: n st)
  case 0
  then have n: "n = Suc B" by simp
  have fresh: "chain_name n \<notin> visited st" using "0.prems" by auto
  have deep: "int B \<le> int n - 1" "int n - 1 < M" using n assms by simp_all
  show ?case
    using fresh deep
    by (simp add: add_dependencies.simps [of _ _ _ _ "chain_name n"] Let_def
        is_request_exception_def)
next
  case (Suc m)
  then have n: "n \<le> B" by simp
  have f: "graph_fetch_package_info chain_http (chain_name n)
    = Inr (JObj [(''info'', JObj [(''version'', JStr ''1.0''),
                                  (''requires_dist'', JArr [JStr (chain_name (Suc n))])])])"
    using chain_fetch [of n] Suc.prems n assms by simp
  have fresh: "chain_name n \<notin> visited st" "chain_name (Suc n) \<notin> visited st"
    using Suc.prems by auto
  have ne: "chain_name (Suc n) \<noteq> chain_name n" "chain_name (Suc n) \<noteq> []"
    by (auto simp: chain_name_def dest: arg_cong [where f = length])
  have room: "\<not> int B \<le> int n - 1" "int n - 1 < M" using n assms by simp_all
  define st1 where "st1 = st\<lparr>visited := insert (chain_name n) (visited st),
      expansions := expansions st @ [(chain_name n, int n - 1)],
      body := body st @ [Node (chain_name n) (chain_name n @ [CHR 0x0A] @ ''1.0'') [],
                         Edge (chain_name n) (chain_name (Suc n))]\<rparr>"
  have later: "\<forall>k \<ge> Suc n. chain_name k \<notin> visited st1"
    using Suc.prems by (auto simp: st1_def chain_name_def dest: arg_cong [where f = length])
  have "fst (add_dependencies repr chain_http (int B) M (chain_name (Suc n)) (int (Suc n) - 1) st1)
      = Some RecursionError"
    using Suc.hyps(1) [of "Suc n" st1] Suc.hyps(2) n later by simp
  then obtain st2 where r: "add_dependencies repr chain_http (int B) M (chain_name (Suc n)) (int n) st1
      = (Some RecursionError, st2)"
    by (cases "add_dependencies repr chain_http (int B) M (chain_name (Suc n)) (int n) st1") auto
  have "add_dependencies repr chain_http (int B) M (chain_name n) (int n - 1) st
      = (Some RecursionError, st2)"
    using fresh ne room r
    by (simp add: add_dependencies.simps [of _ _ _ _ "chain_name n"] f sbind_def Let_def
        dep_name_of_def chain_name_simps is_request_exception_def py_str_def st1_def)
  then show ?case by simp
qed

theorem chain_recursion_error:
  "fst (create_dependency_graph (\<lambda>_. []) chain_http 1000 (chain_name 1) 5000)
     = Some RecursionError"
proof -
  have "fst (add_dependencies (\<lambda>_. []) chain_http (int 1000) 5000 (chain_name 1) (int 1 - 1)
      (initial_state (chain_name 1))) = Some RecursionError"
    by (rule chain_overflow) (simp_all add: initial_state_def)
  then show ?thesis by (simp add: create_dependency_graph_def)
qed




subsection \<open>The issue tracker\<close>

lemma analyze_issues_unresolved:
  "snd (get_repo_from_pypi http package_name) = None \<Longrightarrow>
     analyze_issues http package_name = (fst (get_repo_from_pypi http package_name), Inl AttributeError)"
  by (cases "get_repo_from_pypi http package_name")
    (simp add: analyze_issues_def iobind_def run_def search_github_repo_def)

lemma analyze_issues_no_error_record:
  "snd (analyze_issues http package_name) \<noteq> Inr (ErrorRecord msg)"
  by (cases "get_repo_from_pypi http package_name")
    (auto simp: analyze_issues_def iobind_def run_def search_github_repo_def
      split: option.splits prod.splits sum.splits)

text \<open>
  C4 on the code. The registry record of the package \<open>demo\<close> has no URL with github.com:
  the resolution from the registry finds nothing, after one request, and \<open>analyze_issues\<close>
  raises AttributeError at line 23 instead of returning the error record of line 26.
\<close>

theorem analyze_issues_raises:
  "get_repo_from_pypi demo_http ''demo'' = ([''https://pypi.org/pypi/demo/json''], None)
   \<and> analyze_issues demo_http ''demo''
       = ([''https://pypi.org/pypi/demo/json''], Inl AttributeError)"
  by code_simp

end
